theory Spec2Isabelle
  imports Main "HOL-Library.AList"
begin

section \<open>The session server of the points mini-game\<close>

text \<open>
  A shallow embedding of the Socket.IO server with the durable ledger
  (\<^verbatim>\<open>src/unnamed/part_000\<close>, the persisted variant the specification follows) and of
  the ledger functions of \<^verbatim>\<open>src/server/src/db.ts\<close>.

  The server is single threaded: every handler runs to completion.  A handler is
  therefore a function from the server state (and the payload of the event) to the new
  state and the list of notifications it emitted, in order.

  The three JavaScript \<^verbatim>\<open>Map\<close>s are association lists: \<^verbatim>\<open>Map.set\<close> is
  \<^const>\<open>AList.update\<close> (an existing key keeps its position, a new key is appended),
  \<^verbatim>\<open>Map.delete\<close> is \<^const>\<open>AList.delete\<close>, \<^verbatim>\<open>Map.get\<close> is \<^const>\<open>map_of\<close>, and
  the iteration order of the \<^verbatim>\<open>Map\<close> is the order of the list.  The objects stored in
  a \<^verbatim>\<open>Map\<close> are only ever reached through it, so a mutation of an object is an update
  of the entry under its key; two references to one object are two reads of one entry.

  Points are \<^typ>\<open>int\<close>: the ledger column is an SQL INTEGER, and the amount of a
  transfer is taken to be an integer as well.

  The in-memory variant \<^verbatim>\<open>src/unnamed/part_001\<close> has the same handlers without the
  ledger: it neither refreshes nor writes through, its \<^verbatim>\<open>create_room\<close> has no balance
  check, and its registry is keyed by the user name of the login payload.
\<close>

subsection \<open>Data\<close>

text \<open>The row of table \<^verbatim>\<open>users\<close> without its key and its password hash (db.ts, 29-38).\<close>

record DbUser =
  db_email :: string
  db_username :: string
  db_points :: int

text \<open>\<^verbatim>\<open>OnlineUser\<close> as the login handler builds it (part_000, 160-166).\<close>

record OnlineUser =
  u_id :: string
  u_userId :: int
  u_email :: string
  u_username :: string
  u_points :: int

text \<open>
  Modelled from the spec: the three moves of \<^verbatim>\<open>RPSChoice\<close> and the three values of a
  room's status; the file \<^verbatim>\<open>./types\<close> that declares them is not among the sources.
\<close>

datatype RPSChoice = rock | paper | scissors

datatype RoomStatus = waiting | playing | finished

text \<open>
  \<^verbatim>\<open>Room\<close> as \<^verbatim>\<open>create_room\<close> builds it (part_000, 222-229); \<open>r_gameData\<close> is the
  optional field \<^verbatim>\<open>gameData\<close>, \<open>None\<close> while it is undefined.
\<close>

record Room =
  r_id :: string
  r_gameType :: string
  r_hostId :: string
  r_players :: "string list"
  r_status :: RoomStatus
  r_betAmount :: int
  r_gameData :: "(string \<times> RPSChoice) list option"

text \<open>The state: the ledger and the three maps (part_000, 58-60).\<close>

record server =
  db :: "(int \<times> DbUser) list"
  onlineUsers :: "(string \<times> OnlineUser) list"
  rooms :: "(string \<times> Room) list"
  emailToSocketId :: "(string \<times> string) list"

subsection \<open>Notifications\<close>

text \<open>The object \<^verbatim>\<open>{id, email, username, points}\<close> sent to clients.\<close>

record UserView =
  v_id :: int
  v_email :: string
  v_username :: string
  v_points :: int

text \<open>
  The messages of \<^verbatim>\<open>login_error\<close> (part_000, 139, 145, 153) and of \<^verbatim>\<open>error\<close>, one
  constructor per message text, named after the specification's error taxonomy.
\<close>

datatype LoginError = UserNotFound | AlreadyOnline | ServerFull

datatype Error =
    LoginRequired
  | InsufficientFunds int
  | NotFound
  | Full
  | NotJoinable
  | InvalidRoom
  | NotAMember
  | PlayerInfoMissing
  | InvalidAmount
  | TransferInsufficientFunds
  | RecipientNotFound
  | RecipientOffline

text \<open>
  Modelled from the spec: the settlement outcome
  \<^verbatim>\<open>{winnerId, loserId, isDraw, pointsChange}\<close> that \<^verbatim>\<open>calculateRPSResult\<close> returns; the
  file \<^verbatim>\<open>./game/rps\<close> is not among the sources.
\<close>

record GameResult =
  winnerId :: "string option"
  loserId :: "string option"
  isDraw :: bool
  pointsChange :: "(string \<times> int) list"

text \<open>
  Who receives an emitted message.  Which sockets are in a Socket.IO room is state of
  the library (\<^verbatim>\<open>socket.join\<close>; every socket is in the room named by its own id); it
  is not modelled, and a message to a room is recorded with the name of the room.  The
  payload of a message is the value of its objects at the moment of the \<^verbatim>\<open>emit\<close>.
\<close>

datatype Target =
    ToSocket string  \<comment> \<open>\<^verbatim>\<open>socket.emit\<close>\<close>
  | BroadcastFrom string  \<comment> \<open>\<^verbatim>\<open>socket.broadcast.emit\<close>: everyone but the socket\<close>
  | ToRoom string  \<comment> \<open>\<^verbatim>\<open>io.to(room).emit\<close>\<close>
  | RoomBroadcastFrom string string  \<comment> \<open>\<^verbatim>\<open>socket.broadcast.to(room).emit\<close>\<close>
  | ToAll  \<comment> \<open>\<^verbatim>\<open>io.emit\<close>\<close>

datatype Message =
    login_error LoginError
  | login_success UserView "OnlineUser list" "Room list"
  | user_joined UserView
  | online_users_updated "OnlineUser list"
  | error_msg Error
  | room_created Room
  | room_list_updated "Room list"
  | game_started Room
  | room_joined Room
  | player_joined_room Room UserView
  | game_result string GameResult "(int \<times> int) list" "(string \<times> RPSChoice) list" "UserView list"
  | game_continue Room
  | choice_received
  | transfer_success string int UserView
  | points_received string int UserView
  | player_left_room Room string
  | user_left string

type_synonym Emit = "Target \<times> Message"

subsection \<open>The ledger (db.ts)\<close>

text \<open>\<^verbatim>\<open>getUserById\<close> (db.ts, 142-155): the row, or nothing.\<close>

definition getUserById :: "(int \<times> DbUser) list \<Rightarrow> int \<Rightarrow> DbUser option" where
  "getUserById d userId = map_of d userId"

text \<open>
  \<^verbatim>\<open>getUserPoints\<close> (db.ts, 166-172): \<^verbatim>\<open>user?.points || 0\<close>, so an unknown id reads
  as 0.
\<close>

definition getUserPoints :: "(int \<times> DbUser) list \<Rightarrow> int \<Rightarrow> int" where
  "getUserPoints d userId = (case map_of d userId of None \<Rightarrow> 0 | Some row \<Rightarrow> db_points row)"

text \<open>
  \<^verbatim>\<open>updateUserPoints\<close> (db.ts, 158-163): an SQL UPDATE, which changes the row when
  there is one and nothing otherwise.
\<close>

definition updateUserPoints :: "(int \<times> DbUser) list \<Rightarrow> int \<Rightarrow> int \<Rightarrow> (int \<times> DbUser) list" where
  "updateUserPoints d userId newPoints =
     AList.map_entry userId (\<lambda>row. row\<lparr>db_points := newPoints\<rparr>) d"

subsection \<open>The game resolver\<close>

text \<open>
  Modelled from the spec: \<^verbatim>\<open>calculateRPSResult\<close> of \<^verbatim>\<open>./game/rps\<close>, which is not among
  the sources.  Section 4.3 of the specification: rock beats scissors, scissors beats
  paper, paper beats rock; equal moves are a draw with zero deltas; otherwise the
  winner's delta is the stake and the loser's is its negation.  \<open>pointsChange\<close> is a
  mapping keyed by the two participants, built as a JavaScript object is: a key written
  twice keeps its first position and its last value.
\<close>

fun beats :: "RPSChoice \<Rightarrow> RPSChoice \<Rightarrow> bool" where
  "beats rock scissors = True"
| "beats scissors paper = True"
| "beats paper rock = True"
| "beats _ _ = False"

definition calculateRPSResult ::
  "string \<Rightarrow> RPSChoice \<Rightarrow> string \<Rightarrow> RPSChoice \<Rightarrow> int \<Rightarrow> GameResult" where
  "calculateRPSResult player1Id choice1 player2Id choice2 betAmount =
     (if choice1 = choice2 then
        \<lparr>winnerId = None, loserId = None, isDraw = True,
         pointsChange = AList.update player2Id 0 [(player1Id, 0)]\<rparr>
      else if beats choice1 choice2 then
        \<lparr>winnerId = Some player1Id, loserId = Some player2Id, isDraw = False,
         pointsChange = AList.update player2Id (- betAmount) [(player1Id, betAmount)]\<rparr>
      else
        \<lparr>winnerId = Some player2Id, loserId = Some player1Id, isDraw = False,
         pointsChange = AList.update player2Id betAmount [(player1Id, - betAmount)]\<rparr>)"

subsection \<open>Helpers of the server (part_000, 55-77)\<close>

definition MAX_ONLINE_USERS :: nat where
  "MAX_ONLINE_USERS = 8"

definition getOnlineUsersList :: "server \<Rightarrow> OnlineUser list" where
  "getOnlineUsersList s = map snd (onlineUsers s)"

definition getAvailableRooms :: "server \<Rightarrow> Room list" where
  "getAvailableRooms s =
     filter (\<lambda>room. r_status room = waiting \<and> length (r_players room) < 2) (map snd (rooms s))"

text \<open>The object \<^verbatim>\<open>{id: u.userId, email, username, points}\<close> of an online user.\<close>

definition user_view :: "OnlineUser \<Rightarrow> UserView" where
  "user_view u =
     \<lparr>v_id = u_userId u, v_email = u_email u, v_username = u_username u, v_points = u_points u\<rparr>"

text \<open>
  The assignment \<^verbatim>\<open>user.points = v\<close> to the object stored under a socket id, and the
  read of \<^verbatim>\<open>user.points\<close>.  The handlers read only objects they have just fetched, so
  the default 0 of a missing entry is never used.
\<close>

definition set_points :: "server \<Rightarrow> string \<Rightarrow> int \<Rightarrow> server" where
  "set_points s sid v =
     s\<lparr>onlineUsers := AList.map_entry sid (\<lambda>u. u\<lparr>u_points := v\<rparr>) (onlineUsers s)\<rparr>"

definition points_of :: "server \<Rightarrow> string \<Rightarrow> int" where
  "points_of s sid = (case map_of (onlineUsers s) sid of None \<Rightarrow> 0 | Some u \<Rightarrow> u_points u)"

text \<open>
  The refresh every balance check starts with (part_000, 205-209, 248-252, 422-426,
  445-449): read the ledger and overwrite the cached value when it differs.
\<close>

definition refresh_points :: "server \<Rightarrow> string \<Rightarrow> OnlineUser \<Rightarrow> server" where
  "refresh_points s sid user =
     (let currentPoints = getUserPoints (db s) (u_userId user)
      in if currentPoints \<noteq> u_points user then set_points s sid currentPoints else s)"

subsection \<open>The handlers\<close>

text \<open>
  \<^verbatim>\<open>socket.on("login")\<close> (part_000, 135-195).  The payload is \<^verbatim>\<open>{userId, email}\<close>;
  the row is looked up by \<open>userId\<close>, the duplicate check and the index use the
  payload's \<open>email\<close>, and the session is built from the row.
\<close>

definition login :: "server \<Rightarrow> string \<Rightarrow> int \<Rightarrow> string \<Rightarrow> server \<times> Emit list" where
  "login s sid userId email =
     (case getUserById (db s) userId of
        None \<Rightarrow> (s, [(ToSocket sid, login_error UserNotFound)])
      | Some dbUser \<Rightarrow>
          if map_of (emailToSocketId s) email \<noteq> None then
            (s, [(ToSocket sid, login_error AlreadyOnline)])
          else if length (onlineUsers s) \<ge> MAX_ONLINE_USERS then
            (s, [(ToSocket sid, login_error ServerFull)])
          else
            let onlineUser =
                  \<lparr>u_id = sid, u_userId = userId, u_email = db_email dbUser,
                   u_username = db_username dbUser, u_points = db_points dbUser\<rparr>;
                s' = s\<lparr>onlineUsers := AList.update sid onlineUser (onlineUsers s),
                       emailToSocketId := AList.update email sid (emailToSocketId s)\<rparr>
            in (s',
                [(ToSocket sid,
                   login_success (user_view onlineUser) (getOnlineUsersList s') (getAvailableRooms s')),
                 (BroadcastFrom sid, user_joined (user_view onlineUser)),
                 (BroadcastFrom sid, online_users_updated (getOnlineUsersList s'))]))"

text \<open>
  \<^verbatim>\<open>socket.on("create_room")\<close> (part_000, 198-238).  \<open>roomId\<close> is the value
  \<^verbatim>\<open>generateRoomId()\<close> returned (it reads the clock and a random number, so it is an
  input of the model).
\<close>

definition create_room :: "server \<Rightarrow> string \<Rightarrow> string \<Rightarrow> string \<Rightarrow> server \<times> Emit list" where
  "create_room s sid gameType roomId =
     (case map_of (onlineUsers s) sid of
        None \<Rightarrow> (s, [(ToSocket sid, error_msg LoginRequired)])
      | Some user \<Rightarrow>
          let s1 = refresh_points s sid user;
              betAmount = (if gameType = ''rps'' then 100 else 100)
          in if points_of s1 sid < betAmount then
               (s1, [(ToSocket sid, error_msg (InsufficientFunds betAmount))])
             else
               let room =
                     \<lparr>r_id = roomId, r_gameType = gameType, r_hostId = sid, r_players = [sid],
                      r_status = waiting, r_betAmount = betAmount, r_gameData = None\<rparr>;
                   s2 = s1\<lparr>rooms := AList.update roomId room (rooms s1)\<rparr>
               in (s2,
                   [(ToSocket sid, room_created room),
                    (BroadcastFrom sid, room_list_updated (getAvailableRooms s2))]))"

text \<open>\<^verbatim>\<open>socket.on("join_room")\<close> (part_000, 241-301).\<close>

definition join_room :: "server \<Rightarrow> string \<Rightarrow> string \<Rightarrow> server \<times> Emit list" where
  "join_room s sid roomId =
     (case map_of (onlineUsers s) sid of
        None \<Rightarrow> (s, [(ToSocket sid, error_msg LoginRequired)])
      | Some user \<Rightarrow>
          let s1 = refresh_points s sid user
          in (case map_of (rooms s1) roomId of
               None \<Rightarrow> (s1, [(ToSocket sid, error_msg NotFound)])
             | Some room \<Rightarrow>
                 if length (r_players room) \<ge> 2 then
                   (s1, [(ToSocket sid, error_msg Full)])
                 else if r_status room \<noteq> waiting then
                   (s1, [(ToSocket sid, error_msg NotJoinable)])
                 else if points_of s1 sid < r_betAmount room then
                   (s1, [(ToSocket sid, error_msg (InsufficientFunds (r_betAmount room)))])
                 else
                   let room1 = room\<lparr>r_players := r_players room @ [sid]\<rparr>
                   in if length (r_players room1) = 2 then
                        let room2 = room1\<lparr>r_status := playing\<rparr>;
                            s2 = s1\<lparr>rooms := AList.update roomId room2 (rooms s1)\<rparr>
                        in (s2,
                            [(ToRoom (r_id room2), game_started room2),
                             (BroadcastFrom sid, room_list_updated (getAvailableRooms s2))])
                      else
                        let s2 = s1\<lparr>rooms := AList.update roomId room1 (rooms s1)\<rparr>
                        in (s2,
                            [(ToSocket sid, room_joined room1),
                             (RoomBroadcastFrom sid (r_id room1),
                                player_joined_room room1
                                  (user_view (user\<lparr>u_points := points_of s1 sid\<rparr>))),
                             (BroadcastFrom sid, room_list_updated (getAvailableRooms s2))])))"

text \<open>
  The settlement loop of \<^verbatim>\<open>rps_choice\<close> (part_000, 353-364): for every entry of
  \<^verbatim>\<open>pointsChange\<close> whose socket id is online, add the change to the cached points,
  write the sum to the ledger and record the change under the user id.  The cached
  points are not refreshed from the ledger here.
\<close>

text \<open>
  The assignment \<^verbatim>\<open>pointsChangeByUserId[userId] = change\<close> on an object with number
  keys, which JavaScript enumerates in ascending order.
\<close>

fun record_set :: "int \<Rightarrow> int \<Rightarrow> (int \<times> int) list \<Rightarrow> (int \<times> int) list" where
  "record_set k v [] = [(k, v)]"
| "record_set k v ((k', v') # xs) =
     (if k = k' then (k, v) # xs
      else if k < k' then (k, v) # (k', v') # xs
      else (k', v') # record_set k v xs)"

fun apply_points_change ::
  "server \<Rightarrow> (string \<times> int) list \<Rightarrow> (int \<times> int) list \<Rightarrow> server \<times> (int \<times> int) list" where
  "apply_points_change s [] byUserId = (s, byUserId)"
| "apply_points_change s ((playerSocketId, change) # rest) byUserId =
     (case map_of (onlineUsers s) playerSocketId of
        None \<Rightarrow> apply_points_change s rest byUserId
      | Some player \<Rightarrow>
          let newPoints = u_points player + change;
              s1 = set_points s playerSocketId newPoints;
              s2 = s1\<lparr>db := updateUserPoints (db s1) (u_userId player) newPoints\<rparr>
          in apply_points_change s2 rest (record_set (u_userId player) change byUserId))"

text \<open>
  \<^verbatim>\<open>room.players[i]\<close> used as a property name: an index out of range reads
  \<^verbatim>\<open>undefined\<close>, which as a key of \<^verbatim>\<open>gameData\<close> is the string "undefined".
\<close>

definition players_key :: "string list \<Rightarrow> nat \<Rightarrow> string" where
  "players_key ps i = (if i < length ps then ps ! i else ''undefined'')"

text \<open>
  \<^verbatim>\<open>onlineUsers.get(room.players[i])\<close>: the \<^verbatim>\<open>Map\<close> has no key \<^verbatim>\<open>undefined\<close>.
\<close>

definition player_at :: "server \<Rightarrow> string list \<Rightarrow> nat \<Rightarrow> OnlineUser option" where
  "player_at s ps i = (if i < length ps then map_of (onlineUsers s) (ps ! i) else None)"

text \<open>
  The part of \<^verbatim>\<open>rps_choice\<close> that runs once both moves and both players are there
  (part_000, 343-402), as a function of its own: resolve, apply the points, announce
  the result to the room, then either reset the moves and keep playing (draw) or mark
  the room finished.  In the second case \<^verbatim>\<open>gameData\<close> keeps both moves.
\<close>

definition settle ::
  "server \<Rightarrow> string \<Rightarrow> Room \<Rightarrow> RPSChoice \<Rightarrow> RPSChoice \<Rightarrow> OnlineUser \<Rightarrow> OnlineUser
     \<Rightarrow> server \<times> Emit list" where
  "settle s1 roomId room1 player1Choice player2Choice player1 player2 =
     (let player1Id = r_players room1 ! 0;
          player2Id = r_players room1 ! 1;
          gameResult =
            calculateRPSResult player1Id player1Choice player2Id player2Choice (r_betAmount room1);
          (s2, byUserId) = apply_points_change s1 (pointsChange gameResult) [];
          updatedUsers =
            [user_view (player1\<lparr>u_points := points_of s2 player1Id\<rparr>),
             user_view (player2\<lparr>u_points := points_of s2 player2Id\<rparr>)];
          result =
            (ToRoom (r_id room1),
             game_result (r_id room1) gameResult byUserId
               (AList.update player2Id player2Choice [(player1Id, player1Choice)])
               updatedUsers)
      in if isDraw gameResult then
           let room2 = room1\<lparr>r_gameData := Some [], r_status := playing\<rparr>
           in (s2\<lparr>rooms := AList.update roomId room2 (rooms s2)\<rparr>,
               [result, (ToRoom (r_id room2), game_continue room2)])
         else
           let room2 = room1\<lparr>r_status := finished\<rparr>
           in (s2\<lparr>rooms := AList.update roomId room2 (rooms s2)\<rparr>, [result]))"

text \<open>
  Recording a move (part_000, 316-322): \<^verbatim>\<open>gameData\<close> is created when it is
  undefined, and the socket's entry is written, replacing an earlier one.
\<close>

definition record_move :: "Room \<Rightarrow> string \<Rightarrow> RPSChoice \<Rightarrow> (string \<times> RPSChoice) list" where
  "record_move room sid choice =
     AList.update sid choice (case r_gameData room of None \<Rightarrow> [] | Some g \<Rightarrow> g)"

text \<open>
  \<^verbatim>\<open>socket.on("rps_choice")\<close> (part_000, 304-407).  The move is recorded before
  anything else is looked at, and there is no check of the room's status.
\<close>

definition rps_choice :: "server \<Rightarrow> string \<Rightarrow> string \<Rightarrow> RPSChoice \<Rightarrow> server \<times> Emit list" where
  "rps_choice s sid roomId choice =
     (case map_of (rooms s) roomId of
        None \<Rightarrow> (s, [(ToSocket sid, error_msg InvalidRoom)])
      | Some room \<Rightarrow>
          if r_gameType room \<noteq> ''rps'' then (s, [(ToSocket sid, error_msg InvalidRoom)])
          else if sid \<notin> set (r_players room) then (s, [(ToSocket sid, error_msg NotAMember)])
          else
            let gameData = record_move room sid choice;
                room1 = room\<lparr>r_gameData := Some gameData\<rparr>;
                s1 = s\<lparr>rooms := AList.update roomId room1 (rooms s)\<rparr>;
                ps = r_players room1
            in (case (map_of gameData (players_key ps 0), map_of gameData (players_key ps 1)) of
                 (Some player1Choice, Some player2Choice) \<Rightarrow>
                   (case (player_at s1 ps 0, player_at s1 ps 1) of
                      (Some player1, Some player2) \<Rightarrow>
                        settle s1 roomId room1 player1Choice player2Choice player1 player2
                    | _ \<Rightarrow> (s1, [(ToSocket sid, error_msg PlayerInfoMissing)]))
               | _ \<Rightarrow> (s1, [(ToSocket sid, choice_received)])))"

text \<open>
  \<^verbatim>\<open>socket.on("transfer_points")\<close> (part_000, 410-486).  \<^verbatim>\<open>sender\<close> and
  \<^verbatim>\<open>target\<close> are references into \<^verbatim>\<open>onlineUsers\<close>; when the target's socket is the
  sender's they are one object, so every read and write below goes through the entry of
  the socket id, in the order of the source.
\<close>

definition transfer_points :: "server \<Rightarrow> string \<Rightarrow> string \<Rightarrow> int \<Rightarrow> server \<times> Emit list" where
  "transfer_points s sid targetEmail amount =
     (case map_of (onlineUsers s) sid of
        None \<Rightarrow> (s, [(ToSocket sid, error_msg LoginRequired)])
      | Some sender \<Rightarrow>
          if amount \<le> 0 then (s, [(ToSocket sid, error_msg InvalidAmount)])
          else
            let s1 = refresh_points s sid sender
            in if points_of s1 sid < amount then
                 (s1, [(ToSocket sid, error_msg TransferInsufficientFunds)])
               else
                 (case map_of (emailToSocketId s1) targetEmail of
                    None \<Rightarrow> (s1, [(ToSocket sid, error_msg RecipientNotFound)])
                  | Some targetSocketId \<Rightarrow>
                      (case map_of (onlineUsers s1) targetSocketId of
                         None \<Rightarrow> (s1, [(ToSocket sid, error_msg RecipientOffline)])
                       | Some target \<Rightarrow>
                           let s2 = refresh_points s1 targetSocketId target;
                               senderNewPoints = points_of s2 sid - amount;
                               targetNewPoints = points_of s2 targetSocketId + amount;
                               s3 = set_points s2 sid senderNewPoints;
                               s4 = set_points s3 targetSocketId targetNewPoints;
                               s5 = s4\<lparr>db := updateUserPoints (db s4) (u_userId sender) senderNewPoints\<rparr>;
                               s6 = s5\<lparr>db := updateUserPoints (db s5) (u_userId target) targetNewPoints\<rparr>
                           in (s6,
                               [(ToSocket sid,
                                  transfer_success (u_username target) amount
                                    (user_view (sender\<lparr>u_points := points_of s6 sid\<rparr>))),
                                (ToRoom targetSocketId,
                                  points_received (u_username sender) amount
                                    (user_view (target\<lparr>u_points := points_of s6 targetSocketId\<rparr>))),
                                (ToAll, online_users_updated (getOnlineUsersList s6))]))))"

text \<open>
  The loop over the rooms in \<^verbatim>\<open>disconnect\<close> (part_000, 496-510): a room the socket
  is a player of loses it; an empty room is deleted, a room with players left is
  announced to (with the players already filtered and the status not yet reset) and then
  set to waiting.  \<^verbatim>\<open>gameData\<close> is not touched.  Every room is stored under its own id
  (\<^verbatim>\<open>rooms.set(room.id, room)\<close> is the only insertion), so \<^verbatim>\<open>rooms.delete(room.id)\<close>
  removes the entry being visited: \<open>leave_rooms\<close> walks the entries and drops or rewrites
  the one at hand.  The loop as \<^verbatim>\<open>forEach\<close> runs it, key by key on the changing map,
  is \<open>leave_rooms_loop\<close> below; the two agree on every state the server reaches
  (\<open>leave_rooms_loop_reachable\<close>).
\<close>

fun leave_rooms :: "string \<Rightarrow> string \<Rightarrow> (string \<times> Room) list \<Rightarrow> (string \<times> Room) list \<times> Emit list" where
  "leave_rooms sid uname [] = ([], [])"
| "leave_rooms sid uname ((k, room) # rest) =
     (let (rest', emits) = leave_rooms sid uname rest
      in if sid \<in> set (r_players room) then
           let room1 = room\<lparr>r_players := filter (\<lambda>i. i \<noteq> sid) (r_players room)\<rparr>
           in if length (r_players room1) = 0 then (rest', emits)
              else ((k, room1\<lparr>r_status := waiting\<rparr>) # rest',
                    (ToRoom (r_id room1), player_left_room room1 uname) # emits)
         else ((k, room) # rest', emits))"

text \<open>\<^verbatim>\<open>socket.on("disconnect")\<close> (part_000, 489-523).\<close>

definition disconnect :: "server \<Rightarrow> string \<Rightarrow> server \<times> Emit list" where
  "disconnect s sid =
     (case map_of (onlineUsers s) sid of
        None \<Rightarrow> (s, [])
      | Some user \<Rightarrow>
          let (rooms', emits) = leave_rooms sid (u_username user) (rooms s);
              s' = s\<lparr>onlineUsers := AList.delete sid (onlineUsers s),
                     emailToSocketId := AList.delete (u_email user) (emailToSocketId s),
                     rooms := rooms'\<rparr>
          in (s',
              emits @
              [(BroadcastFrom sid, user_left (u_username user)),
               (BroadcastFrom sid, online_users_updated (getOnlineUsersList s')),
               (BroadcastFrom sid, room_list_updated (getAvailableRooms s'))]))"

text \<open>
  The same loop as JavaScript runs it: \<^verbatim>\<open>rooms.forEach\<close> visits the keys in insertion
  order and skips an entry deleted before its turn; a visit assigns the filtered players
  to the room, then deletes the entry stored under \<^verbatim>\<open>room.id\<close>, or announces the
  departure and resets the status.
\<close>

definition leave_visit ::
  "string \<Rightarrow> string \<Rightarrow> (string \<times> Room) list \<times> Emit list \<Rightarrow> string
     \<Rightarrow> (string \<times> Room) list \<times> Emit list" where
  "leave_visit sid uname st k =
     (case map_of (fst st) k of
        None \<Rightarrow> st
      | Some room \<Rightarrow>
          if sid \<in> set (r_players room) then
            let room1 = room\<lparr>r_players := filter (\<lambda>i. i \<noteq> sid) (r_players room)\<rparr>;
                rs1 = AList.update k room1 (fst st)
            in if length (r_players room1) = 0 then (AList.delete (r_id room1) rs1, snd st)
               else (AList.update k (room1\<lparr>r_status := waiting\<rparr>) rs1,
                     snd st @ [(ToRoom (r_id room1), player_left_room room1 uname)])
          else st)"

definition leave_rooms_loop ::
  "string \<Rightarrow> string \<Rightarrow> (string \<times> Room) list \<Rightarrow> (string \<times> Room) list \<times> Emit list" where
  "leave_rooms_loop sid uname rs = foldl (leave_visit sid uname) (rs, []) (map fst rs)"

subsection \<open>Events and runs\<close>

text \<open>
  One client event: the socket it arrives on and its payload.  \<open>CreateRoom\<close> also
  carries the id \<^verbatim>\<open>generateRoomId()\<close> produced.
\<close>

datatype Event =
    Login string int string
  | CreateRoom string string string
  | JoinRoom string string
  | RpsChoice string string RPSChoice
  | TransferPoints string string int
  | Disconnect string

fun step :: "server \<Rightarrow> Event \<Rightarrow> server \<times> Emit list" where
  "step s (Login sid userId email) = login s sid userId email"
| "step s (CreateRoom sid gameType roomId) = create_room s sid gameType roomId"
| "step s (JoinRoom sid roomId) = join_room s sid roomId"
| "step s (RpsChoice sid roomId choice) = rps_choice s sid roomId choice"
| "step s (TransferPoints sid targetEmail amount) = transfer_points s sid targetEmail amount"
| "step s (Disconnect sid) = disconnect s sid"

text \<open>The server at start: the ledger as it is, and the three maps empty.\<close>

definition init :: "(int \<times> DbUser) list \<Rightarrow> server" where
  "init d = \<lparr>db = d, onlineUsers = [], rooms = [], emailToSocketId = []\<rparr>"

fun run :: "server \<Rightarrow> Event list \<Rightarrow> server" where
  "run s [] = s"
| "run s (e # es) = run (fst (step s e)) es"

section \<open>Predicates and example states\<close>

subsection \<open>Properties of all rooms\<close>

definition all_rooms :: "(Room \<Rightarrow> bool) \<Rightarrow> server \<Rightarrow> bool" where
  "all_rooms P s = list_all (\<lambda>kr. P (snd kr)) (rooms s)"

text \<open>The same for a property of the entries of \<^verbatim>\<open>rooms\<close>: key and room.\<close>

definition all_entries :: "(string \<Rightarrow> Room \<Rightarrow> bool) \<Rightarrow> server \<Rightarrow> bool" where
  "all_entries Q s = list_all (\<lambda>kr. Q (fst kr) (snd kr)) (rooms s)"

text \<open>No room has more than two players.\<close>

definition rooms_bounded :: "server \<Rightarrow> bool" where
  "rooms_bounded s = all_rooms (\<lambda>room. length (r_players room) \<le> 2) s"

subsection \<open>Example ledgers\<close>

definition ledger_ab :: "(int \<times> DbUser) list" where
  "ledger_ab =
     [(1, \<lparr>db_email = ''a@x'', db_username = ''alice'', db_points = 1000\<rparr>),
      (2, \<lparr>db_email = ''b@x'', db_username = ''bob'', db_points = 1000\<rparr>)]"

definition ledger_poor :: "(int \<times> DbUser) list" where
  "ledger_poor = [(1, \<lparr>db_email = ''a@x'', db_username = ''alice'', db_points = 50\<rparr>)]"

definition ledger_abc :: "(int \<times> DbUser) list" where
  "ledger_abc =
     [(1, \<lparr>db_email = ''a@x'', db_username = ''alice'', db_points = 1000\<rparr>),
      (2, \<lparr>db_email = ''b@x'', db_username = ''bob'', db_points = 1000\<rparr>),
      (3, \<lparr>db_email = ''c@x'', db_username = ''carol'', db_points = 1000\<rparr>)]"

text \<open>A room with two players, and a third account online.\<close>

definition full_room_state :: server where
  "full_room_state =
     run (init ledger_abc)
       [Login ''A'' 1 ''a@x'', CreateRoom ''A'' ''rps'' ''r1'', Login ''B'' 2 ''b@x'',
        JoinRoom ''B'' ''r1'', Login ''C'' 3 ''c@x'']"

subsection \<open>Membership of a connection\<close>

text \<open>How many times a socket id occurs among the players of all rooms.\<close>

definition membership_count :: "server \<Rightarrow> string \<Rightarrow> nat" where
  "membership_count s sid = sum_list (map (\<lambda>kr. count_list (r_players (snd kr)) sid) (rooms s))"

text \<open>Two sessions, each the host of a waiting room.\<close>

definition two_rooms_trace :: "Event list" where
  "two_rooms_trace =
     [Login ''A'' 1 ''a@x'', CreateRoom ''A'' ''rps'' ''r1'',
      Login ''B'' 2 ''b@x'', CreateRoom ''B'' ''rps'' ''r2'']"

subsection \<open>Recorded moves and members\<close>





subsection \<open>The resolver's deltas\<close>

text \<open>The delta of the first player in the resolver's outcome; the second's is its negation.\<close>

definition delta1 :: "RPSChoice \<Rightarrow> RPSChoice \<Rightarrow> int \<Rightarrow> int" where
  "delta1 c1 c2 bet = (if c1 = c2 then 0 else if beats c1 c2 then bet else - bet)"

subsection \<open>A match about to be decided\<close>

text \<open>Two players in room r1; the host has moved, the guest has not.\<close>

definition decided_trace :: "Event list" where
  "decided_trace =
     [Login ''A'' 1 ''a@x'', CreateRoom ''A'' ''rps'' ''r1'', Login ''B'' 2 ''b@x'',
      JoinRoom ''B'' ''r1'', RpsChoice ''A'' ''r1'' rock]"

subsection \<open>Verified logins\<close>

text \<open>
  The login handler is written for sockets that connect after the HTTP login
  (part_000, 134): its payload is the \<^verbatim>\<open>{id, email}\<close> of the authenticated user, so
  the email is the one the ledger holds for the id.  \<open>verified\<close> says so of one event,
  \<open>verified_run\<close> of every event of a run.
\<close>

fun verified :: "server \<Rightarrow> Event \<Rightarrow> bool" where
  "verified s (Login sid userId email) =
     (case getUserById (db s) userId of None \<Rightarrow> True | Some row \<Rightarrow> db_email row = email)"
| "verified s _ = True"

fun verified_run :: "server \<Rightarrow> Event list \<Rightarrow> bool" where
  "verified_run s [] = True"
| "verified_run s (e # es) = (verified s e \<and> verified_run (fst (step s e)) es)"

text \<open>The account of a session: the user id and the email taken from the ledger.\<close>

definition account_of :: "OnlineUser \<Rightarrow> int \<times> string" where
  "account_of u = (u_userId u, u_email u)"

text \<open>
  Every session is indexed under its own email, and that email is the ledger's for the
  session's user id.
\<close>

definition sessions_indexed :: "server \<Rightarrow> bool" where
  "sessions_indexed s =
     (\<forall>sid u. map_of (onlineUsers s) sid = Some u \<longrightarrow>
        map_of (emailToSocketId s) (u_email u) = Some sid
      \<and> map_option db_email (map_of (db s) (u_userId u)) = Some (u_email u))"

text \<open>
  Two states with the same index, the same sockets and accounts online, and the same
  user ids and emails in the ledger: they differ in points and rooms only.
\<close>

definition same_identities :: "server \<Rightarrow> server \<Rightarrow> bool" where
  "same_identities s s' =
     (emailToSocketId s' = emailToSocketId s
      \<and> map fst (onlineUsers s') = map fst (onlineUsers s)
      \<and> map fst (db s') = map fst (db s)
      \<and> (\<forall>k. map_option account_of (map_of (onlineUsers s') k) =
               map_option account_of (map_of (onlineUsers s) k))
      \<and> (\<forall>uid. map_option db_email (map_of (db s') uid) = map_option db_email (map_of (db s) uid)))"

text \<open>
  The shape of the state that the model relies on: every room is stored under its own
  id, and no key occurs twice in a map or in the ledger (the user id is its primary
  key).
\<close>

definition well_formed :: "server \<Rightarrow> bool" where
  "well_formed s =
     (all_entries (\<lambda>k room. r_id room = k) s
      \<and> distinct (map fst (rooms s))
      \<and> distinct (map fst (onlineUsers s))
      \<and> distinct (map fst (emailToSocketId s))
      \<and> distinct (map fst (db s)))"

subsection \<open>Example runs for logins, transfers and stale caches\<close>

text \<open>
  A second socket logs in with the user id of an account that is online and another
  email string.
\<close>

definition second_session_trace :: "Event list" where
  "second_session_trace = [Login ''A'' 1 ''a@x'', Login ''A2'' 1 ''a2@x'']"

text \<open>
  A match between sockets A and B in which A has moved, while the ledger row of A's
  account was written by someone else: here by a second session of the account, which
  transfers 500 points to B.
\<close>

definition stale_cache_trace :: "Event list" where
  "stale_cache_trace =
     [Login ''A'' 1 ''a@x'', CreateRoom ''A'' ''rps'' ''r1'', Login ''B'' 2 ''b@x'',
      JoinRoom ''B'' ''r1'', Login ''A2'' 1 ''a2@x'', TransferPoints ''A2'' ''b@x'' 500,
      RpsChoice ''A'' ''r1'' rock]"

text \<open>
  The same match with the ledger row of A's account set to 500 from outside the server,
  by the ledger's own update.
\<close>

definition stale_cache_state :: server where
  "stale_cache_state =
     (run (init ledger_ab) decided_trace)
       \<lparr>db := updateUserPoints (db (run (init ledger_ab) decided_trace)) 1 500\<rparr>"

section \<open>Properties\<close>

subsection \<open>Facts about the store\<close>

lemma map_entry_same:
  "map_of xs k = Some u \<Longrightarrow> f u = u \<Longrightarrow> AList.map_entry k f xs = xs"
  by (induction xs) (auto split: if_splits)

lemma map_entry_absent:
  "map_of xs k = None \<Longrightarrow> AList.map_entry k f xs = xs"
  by (induction xs) (auto split: if_splits)

lemma length_map_entry: "length (AList.map_entry k f xs) = length xs"
  by (induction xs) auto

lemma map_fst_map_entry: "map fst (AList.map_entry k f xs) = map fst xs"
  by (induction xs) auto

lemma set_points_fields:
  "db (set_points s sid v) = db s"
  "rooms (set_points s sid v) = rooms s"
  "emailToSocketId (set_points s sid v) = emailToSocketId s"
  by (simp_all add: set_points_def)

lemma map_of_set_points:
  "map_of (onlineUsers (set_points s sid v)) k =
     (if k = sid then map_option (\<lambda>u. u\<lparr>u_points := v\<rparr>) (map_of (onlineUsers s) sid)
      else map_of (onlineUsers s) k)"
  by (simp add: set_points_def map_of_map_entry split: option.splits)

lemma points_of_set_points:
  "points_of (set_points s sid v) k =
     (if k = sid \<and> map_of (onlineUsers s) sid \<noteq> None then v else points_of s k)"
  by (auto simp: points_of_def map_of_set_points split: option.splits)

text \<open>The refresh writes the ledger's value into the cache, whatever the cache held.\<close>

lemma refresh_points_eq:
  assumes "map_of (onlineUsers s) sid = Some user"
  shows "refresh_points s sid user = set_points s sid (getUserPoints (db s) (u_userId user))"
proof (cases "getUserPoints (db s) (u_userId user) = u_points user")
  case True
  have "AList.map_entry sid (\<lambda>u. u\<lparr>u_points := u_points user\<rparr>) (onlineUsers s) = onlineUsers s"
    using assms by (rule map_entry_same) simp
  with True show ?thesis
    by (simp add: refresh_points_def set_points_def)
next
  case False
  then show ?thesis
    by (simp add: refresh_points_def)
qed

lemma refresh_points_fields:
  "db (refresh_points s sid user) = db s"
  "rooms (refresh_points s sid user) = rooms s"
  "emailToSocketId (refresh_points s sid user) = emailToSocketId s"
  by (simp_all add: refresh_points_def Let_def set_points_fields)

lemma points_of_refresh:
  assumes "map_of (onlineUsers s) sid = Some user"
  shows "points_of (refresh_points s sid user) sid = getUserPoints (db s) (u_userId user)"
  using assms by (simp add: refresh_points_eq points_of_set_points)

text \<open>Reading the ledger after a write.\<close>

lemma getUserPoints_update:
  "getUserPoints (updateUserPoints d uid v) k =
     (if k = uid \<and> map_of d uid \<noteq> None then v else getUserPoints d k)"
  by (auto simp: getUserPoints_def updateUserPoints_def map_of_map_entry split: option.splits)

lemma map_of_updateUserPoints_None:
  "map_of (updateUserPoints d uid v) k = None \<longleftrightarrow> map_of d k = None"
  by (auto simp: updateUserPoints_def map_of_map_entry split: option.splits)

subsection \<open>createRoom and insufficient funds\<close>

text \<open>
  Claim C3.  When the session's balance as just read from the ledger is below the stake
  of 100 points, \<open>create_room\<close> answers the requester with the insufficient-funds
  error and nothing else, and creates no room: the rooms and the ledger are as before.
  This holds for every game type, "rps" included.
\<close>

theorem create_room_insufficient_funds:
  assumes "map_of (onlineUsers s) sid = Some user"
    and "getUserPoints (db s) (u_userId user) < 100"
  shows "snd (create_room s sid gameType roomId) =
           [(ToSocket sid, error_msg (InsufficientFunds 100))]
       \<and> rooms (fst (create_room s sid gameType roomId)) = rooms s
       \<and> db (fst (create_room s sid gameType roomId)) = db s"
  using assms
  by (simp add: create_room_def Let_def points_of_refresh refresh_points_fields)

text \<open>The scenario of the specification: an account with 50 points asks for a room.\<close>

theorem create_room_insufficient_funds_witness:
  "map_of (onlineUsers (run (init ledger_poor) [Login ''A'' 1 ''a@x''])) ''A'' =
     Some \<lparr>u_id = ''A'', u_userId = 1, u_email = ''a@x'', u_username = ''alice'', u_points = 50\<rparr>
   \<and> getUserPoints (db (run (init ledger_poor) [Login ''A'' 1 ''a@x''])) 1 = 50
   \<and> snd (create_room (run (init ledger_poor) [Login ''A'' 1 ''a@x'']) ''A'' ''rps'' ''r1'') =
       [(ToSocket ''A'', error_msg (InsufficientFunds 100))]
   \<and> rooms (fst (create_room (run (init ledger_poor) [Login ''A'' 1 ''a@x'']) ''A'' ''rps'' ''r1'')) = []"
proof -
  let ?s = "run (init ledger_poor) [Login ''A'' 1 ''a@x'']"
  let ?u = "\<lparr>u_id = ''A'', u_userId = 1, u_email = ''a@x'', u_username = ''alice'', u_points = 50\<rparr>"
  have h1: "map_of (onlineUsers ?s) ''A'' = Some ?u"
    by code_simp
  have h2: "getUserPoints (db ?s) 1 = 50"
    by code_simp
  have h3: "getUserPoints (db ?s) (u_userId ?u) < 100"
    using h2 by simp
  have h4: "rooms ?s = []"
    by code_simp
  show ?thesis
    using create_room_insufficient_funds [OF h1 h3, of "''rps''" "''r1''"] h1 h2 h4 by simp
qed

subsection \<open>The game resolver is zero-sum\<close>

text \<open>
  Claim C7.  For all moves and every stake, the outcome between two distinct
  participants is zero-sum.  Equal moves are a draw with no winner and both deltas 0.
  Different moves are not a draw: there are a winner and a loser, they are the two
  participants, the first participant wins exactly when its move beats the other, the
  winner's delta is the stake and the loser's is minus the stake.  In both cases
  \<open>pointsChange\<close> has exactly the two participants as keys and its deltas sum to 0.
\<close>

theorem calculateRPSResult_zero_sum:
  assumes "player1Id \<noteq> player2Id"
  shows "(choice1 = choice2 \<longrightarrow>
            isDraw (calculateRPSResult player1Id choice1 player2Id choice2 stake)
          \<and> winnerId (calculateRPSResult player1Id choice1 player2Id choice2 stake) = None
          \<and> loserId (calculateRPSResult player1Id choice1 player2Id choice2 stake) = None
          \<and> pointsChange (calculateRPSResult player1Id choice1 player2Id choice2 stake) =
              [(player1Id, 0), (player2Id, 0)])
       \<and> (choice1 \<noteq> choice2 \<longrightarrow>
            \<not> isDraw (calculateRPSResult player1Id choice1 player2Id choice2 stake)
          \<and> (\<exists>w l. winnerId (calculateRPSResult player1Id choice1 player2Id choice2 stake) = Some w
                 \<and> loserId (calculateRPSResult player1Id choice1 player2Id choice2 stake) = Some l
                 \<and> {w, l} = {player1Id, player2Id}
                 \<and> (w = player1Id \<longleftrightarrow> beats choice1 choice2)
                 \<and> map_of (pointsChange (calculateRPSResult player1Id choice1 player2Id choice2 stake)) w
                     = Some stake
                 \<and> map_of (pointsChange (calculateRPSResult player1Id choice1 player2Id choice2 stake)) l
                     = Some (- stake)))
       \<and> map fst (pointsChange (calculateRPSResult player1Id choice1 player2Id choice2 stake)) =
           [player1Id, player2Id]
       \<and> sum_list (map snd (pointsChange (calculateRPSResult player1Id choice1 player2Id choice2 stake))) = 0"
  using assms by (auto simp: calculateRPSResult_def)

theorem calculateRPSResult_zero_sum_witness:
  "''A'' \<noteq> ''B''
   \<and> calculateRPSResult ''A'' rock ''B'' scissors 100 =
       \<lparr>winnerId = Some ''A'', loserId = Some ''B'', isDraw = False,
        pointsChange = [(''A'', 100), (''B'', - 100)]\<rparr>
   \<and> map fst (pointsChange (calculateRPSResult ''A'' rock ''B'' scissors 100)) = [''A'', ''B'']
   \<and> sum_list (map snd (pointsChange (calculateRPSResult ''A'' rock ''B'' scissors 100))) = 0"
proof -
  have h: "''A'' \<noteq> ''B''"
    by simp
  have e: "calculateRPSResult ''A'' rock ''B'' scissors 100 =
       \<lparr>winnerId = Some ''A'', loserId = Some ''B'', isDraw = False,
        pointsChange = [(''A'', 100), (''B'', - 100)]\<rparr>"
    by (simp add: calculateRPSResult_def)
  show ?thesis
    using calculateRPSResult_zero_sum [OF h, of rock scissors 100] e by simp
qed

subsection \<open>Disconnecting twice\<close>

text \<open>
  Claim C10.  Running the disconnect handler a second time for the same socket, on
  the state the first run left, emits nothing and returns that state unchanged:
  sessions, rooms, the account index and the ledger are exactly as after the first run.
  The handler has no failing branch, so there is no error either.
\<close>

theorem disconnect_idempotent:
  "disconnect (fst (disconnect s sid)) sid = (fst (disconnect s sid), [])"
proof (cases "map_of (onlineUsers s) sid")
  case None
  then show ?thesis by (simp add: disconnect_def)
next
  case (Some user)
  then have "map_of (onlineUsers (fst (disconnect s sid))) sid = None"
    by (simp add: disconnect_def Let_def AList.delete_conv' split: prod.splits)
  then show ?thesis
    by (simp add: disconnect_def)
qed

subsection \<open>What the handlers do to the rooms\<close>

lemma list_all_update:
  "list_all P xs \<Longrightarrow> P (k, v) \<Longrightarrow> list_all P (AList.update k v xs)"
  by (induction xs) auto

lemma list_all_map_of:
  "list_all P xs \<Longrightarrow> map_of xs k = Some v \<Longrightarrow> P (k, v)"
  by (induction xs) (auto split: if_splits)

lemma all_rooms_entries: "all_rooms P s = all_entries (\<lambda>k. P) s"
  by (simp add: all_rooms_def all_entries_def)

lemma all_entries_update:
  "all_entries Q s \<Longrightarrow> Q roomId room \<Longrightarrow> rooms s' = AList.update roomId room (rooms s) \<Longrightarrow>
   all_entries Q s'"
  by (simp add: all_entries_def list_all_update)

lemma all_entries_lookup:
  "all_entries Q s \<Longrightarrow> map_of (rooms s) roomId = Some room \<Longrightarrow> Q roomId room"
  using list_all_map_of [of "\<lambda>kr. Q (fst kr) (snd kr)" "rooms s" roomId room]
  by (simp add: all_entries_def)

lemma apply_points_change_rooms:
  "rooms (fst (apply_points_change s pc acc)) = rooms s"
  by (induction s pc acc rule: apply_points_change.induct)
     (auto simp: Let_def set_points_fields split: option.splits)

lemma settle_rooms:
  "rooms (fst (settle s1 roomId room1 c1 c2 u1 u2)) =
     AList.update roomId
       (if isDraw (calculateRPSResult (r_players room1 ! 0) c1 (r_players room1 ! 1) c2 (r_betAmount room1))
        then room1\<lparr>r_gameData := Some [], r_status := playing\<rparr>
        else room1\<lparr>r_status := finished\<rparr>)
       (rooms s1)"
  by (simp add: settle_def Let_def case_prod_beta apply_points_change_rooms)

text \<open>The rejections of \<open>rps_choice\<close>, and the three ways it goes on after recording the move.\<close>

lemma rps_choice_rejects:
  "map_of (rooms s) roomId = None \<Longrightarrow>
     rps_choice s sid roomId choice = (s, [(ToSocket sid, error_msg InvalidRoom)])"
  "map_of (rooms s) roomId = Some room \<Longrightarrow> r_gameType room \<noteq> ''rps'' \<Longrightarrow>
     rps_choice s sid roomId choice = (s, [(ToSocket sid, error_msg InvalidRoom)])"
  "map_of (rooms s) roomId = Some room \<Longrightarrow> r_gameType room = ''rps'' \<Longrightarrow> sid \<notin> set (r_players room) \<Longrightarrow>
     rps_choice s sid roomId choice = (s, [(ToSocket sid, error_msg NotAMember)])"
  by (simp_all add: rps_choice_def)

lemma rps_choice_cases:
  assumes "map_of (rooms s) roomId = Some room" and "r_gameType room = ''rps''"
    and "sid \<in> set (r_players room)"
  shows "rps_choice s sid roomId choice =
           (s\<lparr>rooms := AList.update roomId (room\<lparr>r_gameData := Some (record_move room sid choice)\<rparr>) (rooms s)\<rparr>,
            [(ToSocket sid, choice_received)])
       \<or> rps_choice s sid roomId choice =
           (s\<lparr>rooms := AList.update roomId (room\<lparr>r_gameData := Some (record_move room sid choice)\<rparr>) (rooms s)\<rparr>,
            [(ToSocket sid, error_msg PlayerInfoMissing)])
       \<or> (\<exists>c1 c2 u1 u2. rps_choice s sid roomId choice =
            settle (s\<lparr>rooms := AList.update roomId (room\<lparr>r_gameData := Some (record_move room sid choice)\<rparr>) (rooms s)\<rparr>)
              roomId (room\<lparr>r_gameData := Some (record_move room sid choice)\<rparr>) c1 c2 u1 u2)"
  using assms
  by (simp add: rps_choice_def Let_def split: option.splits) blast

lemma login_rooms: "rooms (fst (login s sid userId email)) = rooms s"
  by (simp add: login_def Let_def split: option.splits)

lemma transfer_points_rooms: "rooms (fst (transfer_points s sid targetEmail amount)) = rooms s"
  by (simp add: transfer_points_def Let_def refresh_points_fields set_points_fields split: option.splits)

text \<open>
  A property \<open>Q\<close> of the entries of \<^verbatim>\<open>rooms\<close> (key and room) is kept by a handler
  when it is kept by the changes the handler makes to a room.
\<close>

lemma create_room_all_entries:
  assumes "all_entries Q s"
    and "Q roomId \<lparr>r_id = roomId, r_gameType = gameType, r_hostId = sid, r_players = [sid],
            r_status = waiting, r_betAmount = 100, r_gameData = None\<rparr>"
  shows "all_entries Q (fst (create_room s sid gameType roomId))"
  using assms
  by (auto simp: all_entries_def create_room_def Let_def refresh_points_fields
      intro: list_all_update split: option.splits)

lemma join_room_all_entries:
  assumes "all_entries Q s"
    and "\<And>room. Q roomId room \<Longrightarrow> length (r_players room) < 2 \<Longrightarrow> r_status room = waiting \<Longrightarrow>
           Q roomId (room\<lparr>r_players := r_players room @ [sid]\<rparr>)"
    and "\<And>room. Q roomId room \<Longrightarrow> Q roomId (room\<lparr>r_status := playing\<rparr>)"
  shows "all_entries Q (fst (join_room s sid roomId))"
proof (cases "map_of (onlineUsers s) sid")
  case None
  with assms(1) show ?thesis by (simp add: join_room_def)
next
  case (Some user)
  show ?thesis
  proof (cases "map_of (rooms s) roomId")
    case None
    with Some assms(1) show ?thesis
      by (simp add: join_room_def Let_def refresh_points_fields all_entries_def)
  next
    case room: (Some room)
    have Q: "Q roomId room" using assms(1) room by (rule all_entries_lookup)
    show ?thesis
    proof (cases "length (r_players room) < 2 \<and> r_status room = waiting")
      case False
      with Some room assms(1) show ?thesis
        by (auto simp: join_room_def Let_def refresh_points_fields all_entries_def)
    next
      case True
      then have Q1: "Q roomId (room\<lparr>r_players := r_players room @ [sid]\<rparr>)"
        using Q assms(2) by simp
      then have Q2: "Q roomId (room\<lparr>r_players := r_players room @ [sid], r_status := playing\<rparr>)"
        using assms(3) [OF Q1] by simp
      from Some room assms(1) Q1 Q2 show ?thesis
        by (auto simp: join_room_def Let_def refresh_points_fields all_entries_def
            intro!: list_all_update)
    qed
  qed
qed

lemma rps_choice_all_entries:
  assumes "all_entries Q s"
    and "\<And>room. Q roomId room \<Longrightarrow> sid \<in> set (r_players room) \<Longrightarrow>
           Q roomId (room\<lparr>r_gameData := Some (record_move room sid choice)\<rparr>)"
    and "\<And>room st. Q roomId room \<Longrightarrow> Q roomId (room\<lparr>r_status := st\<rparr>)"
    and "\<And>room. Q roomId room \<Longrightarrow> Q roomId (room\<lparr>r_gameData := Some []\<rparr>)"
  shows "all_entries Q (fst (rps_choice s sid roomId choice))"
proof (cases "map_of (rooms s) roomId")
  case None
  with assms(1) show ?thesis by (simp add: rps_choice_rejects)
next
  case (Some room)
  show ?thesis
  proof (cases "r_gameType room = ''rps'' \<and> sid \<in> set (r_players room)")
    case False
    with Some assms(1) show ?thesis
      by (cases "r_gameType room = ''rps''") (auto simp: rps_choice_rejects)
  next
    case True
    let ?room1 = "room\<lparr>r_gameData := Some (record_move room sid choice)\<rparr>"
    let ?s1 = "s\<lparr>rooms := AList.update roomId ?room1 (rooms s)\<rparr>"
    have Q: "Q roomId room" using assms(1) Some by (rule all_entries_lookup)
    have Q1: "Q roomId ?room1" using assms(2) Q True by simp
    have inv1: "all_entries Q ?s1"
      using assms(1) Q1 by (rule all_entries_update) simp
    have Q2: "Q roomId (?room1\<lparr>r_status := finished\<rparr>)"
      using assms(3) [OF Q1] .
    have "Q roomId (?room1\<lparr>r_gameData := Some []\<rparr>)"
      using assms(4) [OF Q1] .
    then have Q3: "Q roomId (?room1\<lparr>r_gameData := Some [], r_status := playing\<rparr>)"
      by (rule assms(3))
    have settle: "all_entries Q (fst (settle ?s1 roomId ?room1 c1 c2 u1 u2))" for c1 c2 u1 u2
      by (rule all_entries_update [OF inv1 _ settle_rooms]) (use Q2 Q3 in simp)
    from rps_choice_cases [of s roomId room sid choice] Some True
    show ?thesis using inv1 settle by auto
  qed
qed

lemma leave_rooms_all_entries:
  assumes "\<And>k room. Q k room \<Longrightarrow> Q k (room\<lparr>r_players := filter (\<lambda>i. i \<noteq> sid) (r_players room)\<rparr>)"
    and "\<And>k room. Q k room \<Longrightarrow> Q k (room\<lparr>r_status := waiting\<rparr>)"
  shows "list_all (\<lambda>kr. Q (fst kr) (snd kr)) rs \<Longrightarrow>
         list_all (\<lambda>kr. Q (fst kr) (snd kr)) (fst (leave_rooms sid uname rs))"
proof (induction rs)
  case Nil
  then show ?case by simp
next
  case (Cons kr rs)
  obtain k room where kr: "kr = (k, room)" by (cases kr)
  from Cons.prems kr have Q: "Q k room" by simp
  have "Q k (room\<lparr>r_players := filter (\<lambda>i. i \<noteq> sid) (r_players room)\<rparr>)"
    using assms(1) [OF Q] .
  then have "Q k (room\<lparr>r_players := filter (\<lambda>i. i \<noteq> sid) (r_players room), r_status := waiting\<rparr>)"
    by (rule assms(2))
  with Cons kr Q show ?case
    by (simp add: Let_def case_prod_beta)
qed

lemma disconnect_all_entries:
  assumes "all_entries Q s"
    and "\<And>k room. Q k room \<Longrightarrow> Q k (room\<lparr>r_players := filter (\<lambda>i. i \<noteq> sid) (r_players room)\<rparr>)"
    and "\<And>k room. Q k room \<Longrightarrow> Q k (room\<lparr>r_status := waiting\<rparr>)"
  shows "all_entries Q (fst (disconnect s sid))"
proof (cases "map_of (onlineUsers s) sid")
  case None
  with assms(1) show ?thesis by (simp add: disconnect_def)
next
  case (Some user)
  have "list_all (\<lambda>kr. Q (fst kr) (snd kr)) (fst (leave_rooms sid (u_username user) (rooms s)))"
    using assms(2,3) assms(1) [unfolded all_entries_def] by (rule leave_rooms_all_entries)
  with Some show ?thesis
    by (simp add: disconnect_def all_entries_def Let_def case_prod_beta)
qed

text \<open>The same for a property \<open>P\<close> of the rooms alone.\<close>

lemma all_rooms_same: "all_rooms P s \<Longrightarrow> rooms s' = rooms s \<Longrightarrow> all_rooms P s'"
  by (simp add: all_rooms_def)

lemma create_room_all_rooms:
  assumes "all_rooms P s"
    and "P \<lparr>r_id = roomId, r_gameType = gameType, r_hostId = sid, r_players = [sid],
            r_status = waiting, r_betAmount = 100, r_gameData = None\<rparr>"
  shows "all_rooms P (fst (create_room s sid gameType roomId))"
  using assms unfolding all_rooms_entries by (rule create_room_all_entries)

lemma join_room_all_rooms:
  assumes "all_rooms P s"
    and "\<And>room. P room \<Longrightarrow> length (r_players room) < 2 \<Longrightarrow> r_status room = waiting \<Longrightarrow>
           P (room\<lparr>r_players := r_players room @ [sid]\<rparr>)"
    and "\<And>room. P room \<Longrightarrow> P (room\<lparr>r_status := playing\<rparr>)"
  shows "all_rooms P (fst (join_room s sid roomId))"
  using assms unfolding all_rooms_entries by (rule join_room_all_entries)

lemma rps_choice_all_rooms:
  assumes "all_rooms P s"
    and "\<And>room. P room \<Longrightarrow> sid \<in> set (r_players room) \<Longrightarrow>
           P (room\<lparr>r_gameData := Some (record_move room sid choice)\<rparr>)"
    and "\<And>room st. P room \<Longrightarrow> P (room\<lparr>r_status := st\<rparr>)"
    and "\<And>room. P room \<Longrightarrow> P (room\<lparr>r_gameData := Some []\<rparr>)"
  shows "all_rooms P (fst (rps_choice s sid roomId choice))"
  using assms unfolding all_rooms_entries by (rule rps_choice_all_entries)

lemma disconnect_all_rooms:
  assumes "all_rooms P s"
    and "\<And>room. P room \<Longrightarrow> P (room\<lparr>r_players := filter (\<lambda>i. i \<noteq> sid) (r_players room)\<rparr>)"
    and "\<And>room. P room \<Longrightarrow> P (room\<lparr>r_status := waiting\<rparr>)"
  shows "all_rooms P (fst (disconnect s sid))"
  using assms unfolding all_rooms_entries by (rule disconnect_all_entries)

subsection \<open>Room membership never exceeds two\<close>

lemma step_bounded: "rooms_bounded s \<Longrightarrow> rooms_bounded (fst (step s e))"
proof (cases e)
  case (Login sid userId email)
  then show "rooms_bounded s \<Longrightarrow> ?thesis"
    by (simp add: rooms_bounded_def all_rooms_def login_rooms)
next
  case (CreateRoom sid gameType roomId)
  then show "rooms_bounded s \<Longrightarrow> ?thesis"
    by (simp add: rooms_bounded_def create_room_all_rooms)
next
  case (JoinRoom sid roomId)
  then show "rooms_bounded s \<Longrightarrow> ?thesis"
    by (simp add: rooms_bounded_def join_room_all_rooms)
next
  case (RpsChoice sid roomId choice)
  then show "rooms_bounded s \<Longrightarrow> ?thesis"
    by (simp add: rooms_bounded_def rps_choice_all_rooms)
next
  case (TransferPoints sid targetEmail amount)
  then show "rooms_bounded s \<Longrightarrow> ?thesis"
    by (simp add: rooms_bounded_def all_rooms_def transfer_points_rooms)
next
  case (Disconnect sid)
  have "length (filter (\<lambda>i. i \<noteq> sid) ps) \<le> 2" if "length ps \<le> 2" for ps :: "string list"
    using that length_filter_le [of "\<lambda>i. i \<noteq> sid" ps] by linarith
  with Disconnect show "rooms_bounded s \<Longrightarrow> ?thesis"
    by (simp add: rooms_bounded_def disconnect_all_rooms)
qed

lemma run_bounded: "rooms_bounded s \<Longrightarrow> rooms_bounded (run s es)"
  by (induction es arbitrary: s) (simp_all add: step_bounded)

lemma init_bounded: "rooms_bounded (init d)"
  by (simp add: rooms_bounded_def all_rooms_def init_def)

lemma join_room_full:
  assumes "map_of (onlineUsers s) sid = Some user" and "map_of (rooms s) roomId = Some room"
    and "length (r_players room) = 2"
  shows "join_room s sid roomId = (refresh_points s sid user, [(ToSocket sid, error_msg Full)])"
  using assms by (simp add: join_room_def Let_def refresh_points_fields)

text \<open>
  Claim C9.  In every state the server reaches from its start by any sequence of
  events, no room has more than two players.  In such a state \<open>join_room\<close> on a
  room that has two players leaves all rooms as they are (their players and status
  included), and answers a requester that has a session with the error Full and
  nothing else.
\<close>

theorem room_membership_bounded:
  "list_all (\<lambda>kr. length (r_players (snd kr)) \<le> 2) (rooms (run (init d) es))
   \<and> (\<forall>sid roomId room.
         map_of (rooms (run (init d) es)) roomId = Some room \<and> length (r_players room) = 2 \<longrightarrow>
           rooms (fst (join_room (run (init d) es) sid roomId)) = rooms (run (init d) es)
         \<and> (\<forall>user. map_of (onlineUsers (run (init d) es)) sid = Some user \<longrightarrow>
               snd (join_room (run (init d) es) sid roomId) = [(ToSocket sid, error_msg Full)]))"
proof -
  have "rooms_bounded (run (init d) es)"
    using init_bounded by (rule run_bounded)
  then have bounded: "list_all (\<lambda>kr. length (r_players (snd kr)) \<le> 2) (rooms (run (init d) es))"
    by (simp add: rooms_bounded_def all_rooms_def)
  have full: "rooms (fst (join_room s sid roomId)) = rooms s
      \<and> (\<forall>user. map_of (onlineUsers s) sid = Some user \<longrightarrow>
            snd (join_room s sid roomId) = [(ToSocket sid, error_msg Full)])"
    if "map_of (rooms s) roomId = Some room" and "length (r_players room) = 2"
    for s sid roomId room
  proof (cases "map_of (onlineUsers s) sid")
    case None
    then show ?thesis by (simp add: join_room_def)
  next
    case (Some user)
    with that show ?thesis
      by (simp add: join_room_full refresh_points_fields)
  qed
  from bounded full show ?thesis by blast
qed

text \<open>Two players are in room r1; a third session asks to join it.\<close>

theorem room_membership_bounded_witness:
  "map (\<lambda>kr. r_players (snd kr)) (rooms full_room_state) = [[''A'', ''B'']]
   \<and> rooms (fst (join_room full_room_state ''C'' ''r1'')) = rooms full_room_state
   \<and> snd (join_room full_room_state ''C'' ''r1'') = [(ToSocket ''C'', error_msg Full)]"
proof -
  let ?room = "\<lparr>r_id = ''r1'', r_gameType = ''rps'', r_hostId = ''A'', r_players = [''A'', ''B''],
                r_status = playing, r_betAmount = 100, r_gameData = None\<rparr>"
  let ?user = "\<lparr>u_id = ''C'', u_userId = 3, u_email = ''c@x'', u_username = ''carol'', u_points = 1000\<rparr>"
  have st: "full_room_state = run (init ledger_abc) [Login ''A'' 1 ''a@x'', CreateRoom ''A'' ''rps'' ''r1'', Login ''B'' 2 ''b@x'',
        JoinRoom ''B'' ''r1'', Login ''C'' 3 ''c@x'']"
    by (simp add: full_room_state_def)
  have r: "map_of (rooms full_room_state) ''r1'' = Some ?room"
    by code_simp
  have u: "map_of (onlineUsers full_room_state) ''C'' = Some ?user"
    by code_simp
  have p: "map (\<lambda>kr. r_players (snd kr)) (rooms full_room_state) = [[''A'', ''B'']]"
    by code_simp
  have l: "length (r_players ?room) = 2"
    by simp
  from room_membership_bounded [of ledger_abc "[Login ''A'' 1 ''a@x'', CreateRoom ''A'' ''rps'' ''r1'', Login ''B'' 2 ''b@x'',
        JoinRoom ''B'' ''r1'', Login ''C'' 3 ''c@x'']", folded st] r u l p
  show ?thesis by blast
qed

subsection \<open>The settlement, written out\<close>

lemma set_points_db_update:
  "set_points (s\<lparr>db := d\<rparr>) sid v = (set_points s sid v)\<lparr>db := d\<rparr>"
  by (simp add: set_points_def)

lemma points_of_db_update: "points_of (s\<lparr>db := d\<rparr>) sid = points_of s sid"
  by (simp add: points_of_def)

lemma points_of_rooms_update: "points_of (s\<lparr>rooms := r\<rparr>) sid = points_of s sid"
  by (simp add: points_of_def)

lemma points_of_online: "map_of (onlineUsers s) sid = Some u \<Longrightarrow> points_of s sid = u_points u"
  by (simp add: points_of_def)

text \<open>The settlement loop on two entries for two distinct online sockets.\<close>

lemma apply_points_change_two:
  assumes "p1 \<noteq> p2" and "map_of (onlineUsers s) p1 = Some u1"
    and "map_of (onlineUsers s) p2 = Some u2"
  shows "fst (apply_points_change s [(p1, d1), (p2, d2)] acc) =
           (set_points (set_points s p1 (u_points u1 + d1)) p2 (u_points u2 + d2))
             \<lparr>db := updateUserPoints
                      (updateUserPoints (db s) (u_userId u1) (u_points u1 + d1))
                      (u_userId u2) (u_points u2 + d2)\<rparr>"
  using assms
  by (simp add: Let_def map_of_set_points set_points_fields set_points_db_update)

lemma pointsChange_two:
  "p1 \<noteq> p2 \<Longrightarrow>
   pointsChange (calculateRPSResult p1 c1 p2 c2 bet) = [(p1, delta1 c1 c2 bet), (p2, - delta1 c1 c2 bet)]"
  by (simp add: calculateRPSResult_def delta1_def)

lemma isDraw_iff: "isDraw (calculateRPSResult p1 c1 p2 c2 bet) \<longleftrightarrow> c1 = c2"
  by (simp add: calculateRPSResult_def)

lemma apply_points_change_resolved:
  assumes "p1 \<noteq> p2" and "map_of (onlineUsers s) p1 = Some u1"
    and "map_of (onlineUsers s) p2 = Some u2"
  shows "fst (apply_points_change s (pointsChange (calculateRPSResult p1 c1 p2 c2 bet)) acc) =
           (set_points (set_points s p1 (u_points u1 + delta1 c1 c2 bet)) p2
              (u_points u2 - delta1 c1 c2 bet))
             \<lparr>db := updateUserPoints
                      (updateUserPoints (db s) (u_userId u1) (u_points u1 + delta1 c1 c2 bet))
                      (u_userId u2) (u_points u2 - delta1 c1 c2 bet)\<rparr>"
  using apply_points_change_two [OF assms, of "delta1 c1 c2 bet" "- delta1 c1 c2 bet" acc]
  by (simp add: pointsChange_two [OF assms(1)])

text \<open>The settlement between two distinct online players, written out.\<close>

lemma settle_two:
  assumes "r_players room1 = [p1, p2]" and "p1 \<noteq> p2"
    and "map_of (onlineUsers s1) p1 = Some u1" and "map_of (onlineUsers s1) p2 = Some u2"
  shows "fst (settle s1 roomId room1 c1 c2 player1 player2) =
           (set_points (set_points s1 p1 (u_points u1 + delta1 c1 c2 (r_betAmount room1)))
              p2 (u_points u2 - delta1 c1 c2 (r_betAmount room1)))
             \<lparr>db := updateUserPoints
                      (updateUserPoints (db s1) (u_userId u1)
                         (u_points u1 + delta1 c1 c2 (r_betAmount room1)))
                      (u_userId u2) (u_points u2 - delta1 c1 c2 (r_betAmount room1)),
              rooms := AList.update roomId
                         (if c1 = c2 then room1\<lparr>r_gameData := Some [], r_status := playing\<rparr>
                          else room1\<lparr>r_status := finished\<rparr>)
                         (rooms s1)\<rparr>"
    and "\<exists>byUserId users rest.
           snd (settle s1 roomId room1 c1 c2 player1 player2) =
             (ToRoom (r_id room1),
              game_result (r_id room1) (calculateRPSResult p1 c1 p2 c2 (r_betAmount room1))
                byUserId [(p1, c1), (p2, c2)] users) # rest"
proof -
  show "fst (settle s1 roomId room1 c1 c2 player1 player2) =
           (set_points (set_points s1 p1 (u_points u1 + delta1 c1 c2 (r_betAmount room1)))
              p2 (u_points u2 - delta1 c1 c2 (r_betAmount room1)))
             \<lparr>db := updateUserPoints
                      (updateUserPoints (db s1) (u_userId u1)
                         (u_points u1 + delta1 c1 c2 (r_betAmount room1)))
                      (u_userId u2) (u_points u2 - delta1 c1 c2 (r_betAmount room1)),
              rooms := AList.update roomId
                         (if c1 = c2 then room1\<lparr>r_gameData := Some [], r_status := playing\<rparr>
                          else room1\<lparr>r_status := finished\<rparr>)
                         (rooms s1)\<rparr>"
    using assms
    by (simp add: settle_def Let_def case_prod_beta apply_points_change_resolved isDraw_iff
        set_points_fields)
  show "\<exists>byUserId users rest.
           snd (settle s1 roomId room1 c1 c2 player1 player2) =
             (ToRoom (r_id room1),
              game_result (r_id room1) (calculateRPSResult p1 c1 p2 c2 (r_betAmount room1))
                byUserId [(p1, c1), (p2, c2)] users) # rest"
    using assms(1,2)
    by (simp add: settle_def Let_def case_prod_beta)
qed

text \<open>
  A move that completes the pair of recorded moves in a two-player room is settled at
  once.  The room's status is not among the conditions.
\<close>

lemma rps_choice_settles:
  assumes "map_of (rooms s) roomId = Some room" and "r_gameType room = ''rps''"
    and "r_players room = [p1, p2]" and "sid \<in> {p1, p2}"
    and "map_of (onlineUsers s) p1 = Some u1" and "map_of (onlineUsers s) p2 = Some u2"
    and "map_of (record_move room sid choice) p1 = Some c1"
    and "map_of (record_move room sid choice) p2 = Some c2"
  shows "rps_choice s sid roomId choice =
           settle (s\<lparr>rooms := AList.update roomId
                                (room\<lparr>r_gameData := Some (record_move room sid choice)\<rparr>) (rooms s)\<rparr>)
             roomId (room\<lparr>r_gameData := Some (record_move room sid choice)\<rparr>) c1 c2 u1 u2"
  using assms
  by (auto simp: rps_choice_def Let_def players_key_def player_at_def)

subsection \<open>One connection, one room\<close>

text \<open>
  Claim C2, as amended.  \<open>join_room\<close> changes the rooms exactly when the requester
  has a session, the room exists, has fewer than two players and is waiting, and the
  balance just read from the ledger covers the stake.  Then the socket id is appended to
  the room's players, and the room is set to playing when that makes two.  In every
  other case the rooms stay as they are.  Whether the socket is already a player of this
  room or of another one is not among the conditions, so a connection can become a
  player of a second room, or a second time of the same room.
\<close>

theorem join_room_ignores_membership:
  "rooms (fst (join_room s sid roomId)) =
     (case map_of (onlineUsers s) sid of
        None \<Rightarrow> rooms s
      | Some user \<Rightarrow>
          (case map_of (rooms s) roomId of
             None \<Rightarrow> rooms s
           | Some room \<Rightarrow>
               if length (r_players room) < 2 \<and> r_status room = waiting
                  \<and> r_betAmount room \<le> getUserPoints (db s) (u_userId user)
               then AList.update roomId
                      (room\<lparr>r_players := r_players room @ [sid],
                            r_status := (if length (r_players room) = 1 then playing else waiting)\<rparr>)
                      (rooms s)
               else rooms s))"
proof (cases "map_of (onlineUsers s) sid")
  case None
  then show ?thesis by (simp add: join_room_def)
next
  case (Some user)
  show ?thesis
  proof (cases "map_of (rooms s) roomId")
    case None
    with Some show ?thesis
      by (simp add: join_room_def Let_def refresh_points_fields)
  next
    case room: (Some room)
    obtain rid gt host ps st bet gd where fields:
      "room = \<lparr>r_id = rid, r_gameType = gt, r_hostId = host, r_players = ps, r_status = st,
               r_betAmount = bet, r_gameData = gd\<rparr>"
      by (cases room)
    from Some room show ?thesis
      by (auto simp: join_room_def Let_def refresh_points_fields points_of_refresh fields)
  qed
qed

text \<open>Socket A, the only player of room r1, joins room r2 and is then a player of both.\<close>

theorem join_room_ignores_membership_witness:
  "map (\<lambda>kr. (fst kr, r_players (snd kr))) (rooms (run (init ledger_ab) two_rooms_trace)) =
     [(''r1'', [''A'']), (''r2'', [''B''])]
   \<and> map (\<lambda>kr. (fst kr, r_players (snd kr), r_status (snd kr)))
        (rooms (fst (join_room (run (init ledger_ab) two_rooms_trace) ''A'' ''r2''))) =
     [(''r1'', [''A''], waiting), (''r2'', [''B'', ''A''], playing)]"
proof -
  let ?s = "run (init ledger_ab) two_rooms_trace"
  let ?user = "\<lparr>u_id = ''A'', u_userId = 1, u_email = ''a@x'', u_username = ''alice'', u_points = 1000\<rparr>"
  let ?room = "\<lparr>r_id = ''r2'', r_gameType = ''rps'', r_hostId = ''B'', r_players = [''B''],
                r_status = waiting, r_betAmount = 100, r_gameData = None\<rparr>"
  have h1: "map_of (onlineUsers ?s) ''A'' = Some ?user"
    by code_simp
  have h2: "map_of (rooms ?s) ''r2'' = Some ?room"
    by code_simp
  have h3: "length (r_players ?room) < 2" and h4: "r_status ?room = waiting"
    by simp_all
  have h5: "r_betAmount ?room \<le> getUserPoints (db ?s) (u_userId ?user)"
    by code_simp
  have before: "map (\<lambda>kr. (fst kr, r_players (snd kr))) (rooms ?s) = [(''r1'', [''A'']), (''r2'', [''B''])]"
    by code_simp
  have after: "map (\<lambda>kr. (fst kr, r_players (snd kr), r_status (snd kr)))
        (AList.update ''r2''
           (?room\<lparr>r_players := r_players ?room @ [''A''],
                   r_status := (if length (r_players ?room) = 1 then playing else waiting)\<rparr>)
           (rooms ?s)) =
     [(''r1'', [''A''], waiting), (''r2'', [''B'', ''A''], playing)]"
    by code_simp
  show ?thesis
    using join_room_ignores_membership [of ?s "''A''" "''r2''"] h1 h2 h3 h4 h5 before after
    by simp
qed

text \<open>
  The claim as stated fails: in a state the server reaches, socket A is a player of
  one room; after \<open>join_room\<close> for room r2 it is a player of two rooms, and after
  \<open>join_room\<close> for its own room r1 it is twice a player of that room.
\<close>

theorem join_room_second_membership:
  "membership_count (run (init ledger_ab) two_rooms_trace) ''A'' = 1
   \<and> membership_count (fst (join_room (run (init ledger_ab) two_rooms_trace) ''A'' ''r2'')) ''A'' = 2
   \<and> map (\<lambda>kr. r_players (snd kr))
        (rooms (fst (join_room (run (init ledger_ab) two_rooms_trace) ''A'' ''r1''))) =
       [[''A'', ''A''], [''B'']]"
  by code_simp

subsection \<open>Recorded moves and the members of a room\<close>





lemma leave_rooms_keeps_moves:
  "(k, room') \<in> set (fst (leave_rooms sid uname rs)) \<Longrightarrow>
   \<exists>room. (k, room) \<in> set rs \<and> r_gameData room' = r_gameData room
         \<and> r_players room' = filter (\<lambda>i. i \<noteq> sid) (r_players room)"
proof (induction rs)
  case Nil
  then show ?case by simp
next
  case (Cons kr rs)
  obtain k0 room0 where kr: "kr = (k0, room0)" by (cases kr)
  have notin: "filter (\<lambda>i. i \<noteq> sid) ps = ps" if "sid \<notin> set ps" for ps :: "string list"
    using that by (induction ps) auto
  from Cons kr show ?case
    by (auto simp: Let_def case_prod_beta notin split: if_splits)
qed




subsection \<open>A finished room still settles\<close>

lemma record_move_lookup:
  "map_of (record_move room sid c) k =
     (if k = sid then Some c else map_of (case r_gameData room of None \<Rightarrow> [] | Some g \<Rightarrow> g) k)"
  by (simp add: record_move_def AList.update_conv')

text \<open>
  Claim C4, as amended.  Two distinct online players \<open>p1\<close> and \<open>p2\<close> of two
  accounts with ledger rows are the players of a room; a move of one of them completes
  the pair of recorded moves \<open>m1\<close>, \<open>m2\<close> with \<open>m1 \<noteq> m2\<close>, so the settlement is
  decisive.  In the state \<open>s1\<close> after it the room is finished and still holds both
  moves.  A further move \<open>c'\<close> of either player \<open>sid'\<close> in \<open>s1\<close> is not rejected:
  it is settled at once, between \<open>c'\<close> and the move the other player recorded for the
  round before (\<open>n1\<close>, \<open>n2\<close>), and the result is announced to the room.  When the
  new move differs from that stale move, the stake moves again, in the cache and in the
  ledger, to the player whose move beats the other's, and the room stays finished with
  the new pair of moves.  When the new move equals the stale move the settlement is a
  draw: no balance changes, the recorded moves are reset and the room is playing again.
\<close>

theorem finished_room_next_move:
  assumes room: "map_of (rooms s) roomId = Some room" "r_gameType room = ''rps''"
      "r_players room = [p1, p2]" "p1 \<noteq> p2"
    and online: "map_of (onlineUsers s) p1 = Some u1" "map_of (onlineUsers s) p2 = Some u2"
    and accounts: "u_userId u1 \<noteq> u_userId u2" "map_of (db s) (u_userId u1) \<noteq> None"
      "map_of (db s) (u_userId u2) \<noteq> None"
    and first: "sid \<in> {p1, p2}" "map_of (record_move room sid c) p1 = Some m1"
      "map_of (record_move room sid c) p2 = Some m2" "m1 \<noteq> m2"
    and s1: "s1 = fst (rps_choice s sid roomId c)"
    and second: "sid' \<in> {p1, p2}" "n1 = (if sid' = p1 then c' else m1)"
      "n2 = (if sid' = p2 then c' else m2)"
    and s2: "s2 = fst (rps_choice s1 sid' roomId c')"
    and gain: "gain = (if beats n1 n2 then r_betAmount room else - r_betAmount room)"
  shows "map_of (rooms s1) roomId =
           Some (room\<lparr>r_gameData := Some (record_move room sid c), r_status := finished\<rparr>)
       \<and> (\<exists>byUserId users rest.
             snd (rps_choice s1 sid' roomId c') =
               (ToRoom (r_id room),
                game_result (r_id room) (calculateRPSResult p1 n1 p2 n2 (r_betAmount room))
                  byUserId [(p1, n1), (p2, n2)] users) # rest)
       \<and> getUserPoints (db s1) (u_userId u1) = points_of s1 p1
       \<and> getUserPoints (db s1) (u_userId u2) = points_of s1 p2
       \<and> (if n1 = n2 then
             points_of s2 p1 = points_of s1 p1
           \<and> points_of s2 p2 = points_of s1 p2
           \<and> getUserPoints (db s2) (u_userId u1) = getUserPoints (db s1) (u_userId u1)
           \<and> getUserPoints (db s2) (u_userId u2) = getUserPoints (db s1) (u_userId u2)
           \<and> map_of (rooms s2) roomId = Some (room\<lparr>r_gameData := Some [], r_status := playing\<rparr>)
          else
             points_of s2 p1 = points_of s1 p1 + gain
           \<and> points_of s2 p2 = points_of s1 p2 - gain
           \<and> getUserPoints (db s2) (u_userId u1) = getUserPoints (db s1) (u_userId u1) + gain
           \<and> getUserPoints (db s2) (u_userId u2) = getUserPoints (db s1) (u_userId u2) - gain
           \<and> map_of (rooms s2) roomId =
               Some (room\<lparr>r_gameData :=
                            Some (AList.update sid' c' (record_move room sid c)),
                          r_status := finished\<rparr>))"
proof -
  let ?bet = "r_betAmount room"
  let ?g = "record_move room sid c"
  let ?room1 = "room\<lparr>r_gameData := Some ?g\<rparr>"
  let ?sa = "s\<lparr>rooms := AList.update roomId ?room1 (rooms s)\<rparr>"
  let ?roomF = "room\<lparr>r_gameData := Some ?g, r_status := finished\<rparr>"
  let ?v1 = "u_points u1 + delta1 m1 m2 ?bet"
  let ?v2 = "u_points u2 - delta1 m1 m2 ?bet"
  let ?u1 = "u1\<lparr>u_points := ?v1\<rparr>"
  let ?u2 = "u2\<lparr>u_points := ?v2\<rparr>"
  have rc1: "rps_choice s sid roomId c = settle ?sa roomId ?room1 m1 m2 u1 u2"
    using room(1,2,3) first(1) online first(2,3) by (rule rps_choice_settles)
  have on_a: "map_of (onlineUsers ?sa) p1 = Some u1" "map_of (onlineUsers ?sa) p2 = Some u2"
    using online by simp_all
  have pl: "r_players ?room1 = [p1, p2]"
    using room(3) by simp
  have s1_eq: "s1 =
      (set_points (set_points ?sa p1 (u_points u1 + delta1 m1 m2 (r_betAmount ?room1)))
              p2 (u_points u2 - delta1 m1 m2 (r_betAmount ?room1)))
             \<lparr>db := updateUserPoints
                      (updateUserPoints (db ?sa) (u_userId u1)
                         (u_points u1 + delta1 m1 m2 (r_betAmount ?room1)))
                      (u_userId u2) (u_points u2 - delta1 m1 m2 (r_betAmount ?room1)),
              rooms := AList.update roomId
                         (if m1 = m2 then ?room1\<lparr>r_gameData := Some [], r_status := playing\<rparr>
                          else ?room1\<lparr>r_status := finished\<rparr>)
                         (rooms ?sa)\<rparr>"
    unfolding s1 rc1 using pl room(4) on_a by (rule settle_two(1))
  have rooms1: "map_of (rooms s1) roomId = Some ?roomF"
    using first(4) by (simp add: s1_eq AList.update_conv')
  have db1: "db s1 = updateUserPoints (updateUserPoints (db s) (u_userId u1) ?v1) (u_userId u2) ?v2"
    by (simp add: s1_eq)
  have on1: "map_of (onlineUsers s1) p1 = Some ?u1" "map_of (onlineUsers s1) p2 = Some ?u2"
    using online room(4) by (simp_all add: s1_eq map_of_set_points)
  have p1s1: "points_of s1 p1 = ?v1" and p2s1: "points_of s1 p2 = ?v2"
    using on1 by (simp_all add: points_of_online)
  have l1: "getUserPoints (db s1) (u_userId u1) = ?v1"
    and l2: "getUserPoints (db s1) (u_userId u2) = ?v2"
    using accounts by (simp_all add: db1 getUserPoints_update map_of_updateUserPoints_None)
  have rows1: "map_of (db s1) (u_userId u1) \<noteq> None" "map_of (db s1) (u_userId u2) \<noteq> None"
    using accounts(2,3) by (simp_all add: db1 map_of_updateUserPoints_None)
  have facts: "r_gameType ?roomF = ''rps''" "r_players ?roomF = [p1, p2]"
    using room(2,3) by simp_all
  have mv: "map_of (record_move ?roomF sid' c') p1 = Some n1"
       "map_of (record_move ?roomF sid' c') p2 = Some n2"
    using first(2,3) second by (simp_all add: record_move_lookup)
  let ?g2 = "record_move ?roomF sid' c'"
  let ?room2 = "?roomF\<lparr>r_gameData := Some ?g2\<rparr>"
  let ?sb = "s1\<lparr>rooms := AList.update roomId ?room2 (rooms s1)\<rparr>"
  let ?w1 = "?v1 + delta1 n1 n2 ?bet"
  let ?w2 = "?v2 - delta1 n1 n2 ?bet"
  have g2: "?g2 = AList.update sid' c' ?g"
    by (simp add: record_move_def)
  have rc2: "rps_choice s1 sid' roomId c' = settle ?sb roomId ?room2 n1 n2 ?u1 ?u2"
    using rooms1 facts second(1) on1 mv by (rule rps_choice_settles)
  have on_b: "map_of (onlineUsers ?sb) p1 = Some ?u1" "map_of (onlineUsers ?sb) p2 = Some ?u2"
    using on1 by simp_all
  have pl2: "r_players ?room2 = [p1, p2]"
    using room(3) by simp
  have s2_eq: "s2 =
      (set_points (set_points ?sb p1 (u_points ?u1 + delta1 n1 n2 (r_betAmount ?room2)))
              p2 (u_points ?u2 - delta1 n1 n2 (r_betAmount ?room2)))
             \<lparr>db := updateUserPoints
                      (updateUserPoints (db ?sb) (u_userId ?u1)
                         (u_points ?u1 + delta1 n1 n2 (r_betAmount ?room2)))
                      (u_userId ?u2) (u_points ?u2 - delta1 n1 n2 (r_betAmount ?room2)),
              rooms := AList.update roomId
                         (if n1 = n2 then ?room2\<lparr>r_gameData := Some [], r_status := playing\<rparr>
                          else ?room2\<lparr>r_status := finished\<rparr>)
                         (rooms ?sb)\<rparr>"
    unfolding s2 rc2 using pl2 room(4) on_b by (rule settle_two(1))
  have emit: "\<exists>byUserId users rest.
             snd (rps_choice s1 sid' roomId c') =
               (ToRoom (r_id ?room2),
                game_result (r_id ?room2) (calculateRPSResult p1 n1 p2 n2 (r_betAmount ?room2))
                  byUserId [(p1, n1), (p2, n2)] users) # rest"
    unfolding rc2 using pl2 room(4) on_b by (rule settle_two(2))
  have db2: "db s2 = updateUserPoints (updateUserPoints (db s1) (u_userId u1) ?w1) (u_userId u2) ?w2"
    by (simp add: s2_eq)
  have on2: "map_of (onlineUsers s2) p1 = Some (?u1\<lparr>u_points := ?w1\<rparr>)"
    "map_of (onlineUsers s2) p2 = Some (?u2\<lparr>u_points := ?w2\<rparr>)"
    using on1 room(4) by (simp_all add: s2_eq map_of_set_points)
  have p1s2: "points_of s2 p1 = ?w1" and p2s2: "points_of s2 p2 = ?w2"
    using on2 by (simp_all add: points_of_online)
  have m1: "getUserPoints (db s2) (u_userId u1) = ?w1"
    and m2: "getUserPoints (db s2) (u_userId u2) = ?w2"
    using accounts(1) rows1 by (simp_all add: db2 getUserPoints_update map_of_updateUserPoints_None)
  have rooms2: "map_of (rooms s2) roomId =
      Some (if n1 = n2 then room\<lparr>r_gameData := Some [], r_status := playing\<rparr>
            else room\<lparr>r_gameData := Some (AList.update sid' c' ?g), r_status := finished\<rparr>)"
    by (simp add: s2_eq AList.update_conv' g2)
  have d: "delta1 n1 n2 ?bet = (if n1 = n2 then 0 else gain)"
    by (simp add: delta1_def gain)
  have A: "map_of (rooms s1) roomId = Some ?roomF"
    by (rule rooms1)
  have B: "\<exists>byUserId users rest.
             snd (rps_choice s1 sid' roomId c') =
               (ToRoom (r_id room),
                game_result (r_id room) (calculateRPSResult p1 n1 p2 n2 ?bet)
                  byUserId [(p1, n1), (p2, n2)] users) # rest"
    using emit by simp
  have C: "getUserPoints (db s1) (u_userId u1) = points_of s1 p1"
    "getUserPoints (db s1) (u_userId u2) = points_of s1 p2"
    using l1 l2 p1s1 p2s1 by simp_all
  show ?thesis
  proof (cases "n1 = n2")
    case True
    with d have "delta1 n1 n2 ?bet = 0" by simp
    with p1s2 p2s2 m1 m2 p1s1 p2s1 l1 l2 rooms2 True
    have "points_of s2 p1 = points_of s1 p1 \<and> points_of s2 p2 = points_of s1 p2
        \<and> getUserPoints (db s2) (u_userId u1) = getUserPoints (db s1) (u_userId u1)
        \<and> getUserPoints (db s2) (u_userId u2) = getUserPoints (db s1) (u_userId u2)
        \<and> map_of (rooms s2) roomId = Some (room\<lparr>r_gameData := Some [], r_status := playing\<rparr>)"
      by simp
    with A B C True show ?thesis by simp
  next
    case False
    with d have "delta1 n1 n2 ?bet = gain" by simp
    with p1s2 p2s2 m1 m2 p1s1 p2s1 l1 l2 rooms2 False
    have "points_of s2 p1 = points_of s1 p1 + gain \<and> points_of s2 p2 = points_of s1 p2 - gain
        \<and> getUserPoints (db s2) (u_userId u1) = getUserPoints (db s1) (u_userId u1) + gain
        \<and> getUserPoints (db s2) (u_userId u2) = getUserPoints (db s1) (u_userId u2) - gain
        \<and> map_of (rooms s2) roomId =
            Some (room\<lparr>r_gameData := Some (AList.update sid' c' ?g), r_status := finished\<rparr>)"
      by simp
    with A B C False show ?thesis by simp
  qed
qed

text \<open>
  The host won with rock against scissors (1100 and 900 points, in the cache and in the
  ledger).  The host sends paper, which the guest's scissors of the round before beat:
  the stake goes back (1000 and 1000) and the room stays finished.
\<close>

theorem finished_room_next_move_witness:
  "map (\<lambda>kr. (r_players (snd kr), r_status (snd kr), r_gameData (snd kr)))
       (rooms (fst (rps_choice (run (init ledger_ab) decided_trace) ''B'' ''r1'' scissors))) =
     [([''A'', ''B''], finished, Some [(''A'', rock), (''B'', scissors)])]
   \<and> getUserPoints (db (fst (rps_choice (run (init ledger_ab) decided_trace) ''B'' ''r1'' scissors))) 1 = 1100
   \<and> getUserPoints (db (fst (rps_choice (run (init ledger_ab) decided_trace) ''B'' ''r1'' scissors))) 2 = 900
   \<and> points_of
        (fst (rps_choice (fst (rps_choice (run (init ledger_ab) decided_trace) ''B'' ''r1'' scissors))
               ''A'' ''r1'' paper)) ''A'' = 1000
   \<and> points_of
        (fst (rps_choice (fst (rps_choice (run (init ledger_ab) decided_trace) ''B'' ''r1'' scissors))
               ''A'' ''r1'' paper)) ''B'' = 1000
   \<and> getUserPoints
        (db (fst (rps_choice (fst (rps_choice (run (init ledger_ab) decided_trace) ''B'' ''r1'' scissors))
               ''A'' ''r1'' paper))) 1 = 1000
   \<and> getUserPoints
        (db (fst (rps_choice (fst (rps_choice (run (init ledger_ab) decided_trace) ''B'' ''r1'' scissors))
               ''A'' ''r1'' paper))) 2 = 1000
   \<and> map_option (\<lambda>r. (r_status r, r_gameData r))
        (map_of (rooms (fst (rps_choice
               (fst (rps_choice (run (init ledger_ab) decided_trace) ''B'' ''r1'' scissors))
               ''A'' ''r1'' paper))) ''r1'') =
       Some (finished, Some [(''A'', paper), (''B'', scissors)])"
proof -
  let ?s = "run (init ledger_ab) decided_trace"
  let ?room = "\<lparr>r_id = ''r1'', r_gameType = ''rps'', r_hostId = ''A'', r_players = [''A'', ''B''],
                r_status = playing, r_betAmount = 100, r_gameData = Some [(''A'', rock)]\<rparr>"
  let ?u1 = "\<lparr>u_id = ''A'', u_userId = 1, u_email = ''a@x'', u_username = ''alice'', u_points = 1000\<rparr>"
  let ?u2 = "\<lparr>u_id = ''B'', u_userId = 2, u_email = ''b@x'', u_username = ''bob'', u_points = 1000\<rparr>"
  let ?s1 = "fst (rps_choice ?s ''B'' ''r1'' scissors)"
  let ?s2 = "fst (rps_choice ?s1 ''A'' ''r1'' paper)"
  have h1: "map_of (rooms ?s) ''r1'' = Some ?room"
    by code_simp
  have h2: "r_gameType ?room = ''rps''" and h3: "r_players ?room = [''A'', ''B'']"
    and h4: "''A'' \<noteq> ''B''"
    by simp_all
  have h5: "map_of (onlineUsers ?s) ''A'' = Some ?u1" and h6: "map_of (onlineUsers ?s) ''B'' = Some ?u2"
    by code_simp+
  have a1: "u_userId ?u1 \<noteq> u_userId ?u2"
    by simp
  have a2: "map_of (db ?s) (u_userId ?u1) \<noteq> None" and a3: "map_of (db ?s) (u_userId ?u2) \<noteq> None"
    by code_simp+
  have h7: "''B'' \<in> {''A'', ''B''}" and h11: "''A'' \<in> {''A'', ''B''}"
    by simp_all
  have h8: "map_of (record_move ?room ''B'' scissors) ''A'' = Some rock"
    and h9: "map_of (record_move ?room ''B'' scissors) ''B'' = Some scissors"
    by code_simp+
  have h10: "rock \<noteq> scissors"
    by simp
  have n1: "paper = (if ''A'' = ''A'' then paper else rock)"
    and n2: "scissors = (if ''A'' = ''B'' then paper else scissors)"
    by simp_all
  have g: "- 100 = (if beats paper scissors then r_betAmount ?room else - r_betAmount ?room)"
    by simp
  note T = finished_room_next_move [OF h1 h2 h3 h4 h5 h6 a1 a2 a3 h7 h8 h9 h10 refl h11 n1 n2 refl g]
  have a: "map (\<lambda>kr. (r_players (snd kr), r_status (snd kr), r_gameData (snd kr))) (rooms ?s1) =
     [([''A'', ''B''], finished, Some [(''A'', rock), (''B'', scissors)])]"
    by code_simp
  have b: "points_of ?s1 ''A'' = 1100" and c: "points_of ?s1 ''B'' = 900"
    by code_simp+
  have rm: "AList.update ''A'' paper (record_move ?room ''B'' scissors) = [(''A'', paper), (''B'', scissors)]"
    by code_simp
  from T b c have l: "getUserPoints (db ?s1) 1 = 1100 \<and> getUserPoints (db ?s1) 2 = 900"
    by simp
  from T b c l have "points_of ?s2 ''A'' = 1000 \<and> points_of ?s2 ''B'' = 1000
      \<and> getUserPoints (db ?s2) 1 = 1000 \<and> getUserPoints (db ?s2) 2 = 1000"
    by simp
  moreover from T rm have "map_option (\<lambda>r. (r_status r, r_gameData r)) (map_of (rooms ?s2) ''r1'') =
      Some (finished, Some [(''A'', paper), (''B'', scissors)])"
    by simp
  ultimately show ?thesis using a l by simp
qed

text \<open>
  The claim as stated fails for a new move equal to the stale move.  The host won with
  rock against scissors; the guest then sends rock against the host's rock of the round
  before.  The room was finished and the move is settled all the same, but as a draw: the
  stake does not move again (1100 and 900 stay, in the cache and in the ledger), the
  recorded moves are reset and the room is playing again.
\<close>

theorem finished_room_equal_move_draws:
  "map (\<lambda>kr. (r_players (snd kr), r_status (snd kr), r_gameData (snd kr)))
       (rooms (fst (rps_choice (run (init ledger_ab) decided_trace) ''B'' ''r1'' scissors))) =
     [([''A'', ''B''], finished, Some [(''A'', rock), (''B'', scissors)])]
   \<and> map (\<lambda>kv. (fst kv, u_points (snd kv)))
       (onlineUsers (fst (rps_choice (run (init ledger_ab) decided_trace) ''B'' ''r1'' scissors))) =
     [(''A'', 1100), (''B'', 900)]
   \<and> map (\<lambda>kv. (fst kv, u_points (snd kv)))
       (onlineUsers (fst (rps_choice
          (fst (rps_choice (run (init ledger_ab) decided_trace) ''B'' ''r1'' scissors))
          ''B'' ''r1'' rock))) =
     [(''A'', 1100), (''B'', 900)]
   \<and> map (\<lambda>kv. (fst kv, db_points (snd kv)))
       (db (fst (rps_choice
          (fst (rps_choice (run (init ledger_ab) decided_trace) ''B'' ''r1'' scissors))
          ''B'' ''r1'' rock))) =
     [(1, 1100), (2, 900)]
   \<and> map (\<lambda>kr. (r_players (snd kr), r_status (snd kr), r_gameData (snd kr)))
       (rooms (fst (rps_choice
          (fst (rps_choice (run (init ledger_ab) decided_trace) ''B'' ''r1'' scissors))
          ''B'' ''r1'' rock))) =
     [([''A'', ''B''], playing, Some [])]"
  by code_simp

subsection \<open>One session per account\<close>

lemma same_identities_refl: "same_identities s s"
  by (simp add: same_identities_def)

lemma same_identities_trans:
  "same_identities s s' \<Longrightarrow> same_identities s' s'' \<Longrightarrow> same_identities s s''"
  by (simp add: same_identities_def)

lemma same_identities_rooms: "same_identities s (s\<lparr>rooms := r\<rparr>)"
  by (simp add: same_identities_def)

lemma same_identities_set_points: "same_identities s (set_points s sid v)"
proof -
  have "map fst (onlineUsers (set_points s sid v)) = map fst (onlineUsers s)"
    by (simp add: set_points_def map_fst_map_entry)
  then show ?thesis
    by (cases "map_of (onlineUsers s) sid")
       (simp_all add: same_identities_def set_points_fields map_of_set_points account_of_def)
qed

lemma same_identities_refresh: "same_identities s (refresh_points s sid user)"
  by (simp add: refresh_points_def Let_def same_identities_refl same_identities_set_points)

lemma same_identities_ledger: "same_identities s (s\<lparr>db := updateUserPoints (db s) uid v\<rparr>)"
  by (auto simp: same_identities_def updateUserPoints_def map_of_map_entry map_fst_map_entry
      split: option.splits)

lemma same_identities_apply_points_change:
  "same_identities s (fst (apply_points_change s pc acc))"
proof (induction s pc acc rule: apply_points_change.induct)
  case (1 s byUserId)
  show ?case by (simp add: same_identities_refl)
next
  case (2 s playerSocketId change rest byUserId)
  show ?case
  proof (cases "map_of (onlineUsers s) playerSocketId")
    case None
    with 2 show ?thesis by simp
  next
    case (Some player)
    let ?s1 = "set_points s playerSocketId (u_points player + change)"
    let ?s2 = "?s1\<lparr>db := updateUserPoints (db ?s1) (u_userId player) (u_points player + change)\<rparr>"
    have "same_identities s ?s2"
      using same_identities_set_points same_identities_ledger by (rule same_identities_trans)
    moreover have "same_identities ?s2 (fst (apply_points_change ?s2 rest
        (record_set (u_userId player) change byUserId)))"
      using 2(2) [OF Some refl refl refl] .
    ultimately show ?thesis
      using Some by (simp add: Let_def same_identities_trans)
  qed
qed

lemma same_identities_settle:
  "same_identities s1 (fst (settle s1 roomId room1 c1 c2 u1 u2))"
proof -
  let ?s2 = "fst (apply_points_change s1
      (pointsChange (calculateRPSResult (r_players room1 ! 0) c1 (r_players room1 ! 1) c2 (r_betAmount room1))) [])"
  have "same_identities s1 ?s2"
    by (rule same_identities_apply_points_change)
  moreover have "same_identities ?s2 (?s2\<lparr>rooms := r\<rparr>)" for r
    by (rule same_identities_rooms)
  ultimately have "same_identities s1 (?s2\<lparr>rooms := r\<rparr>)" for r
    by (rule same_identities_trans)
  then show ?thesis
    by (simp add: settle_def Let_def case_prod_beta)
qed

lemma same_identities_create_room: "same_identities s (fst (create_room s sid gameType roomId))"
proof (cases "map_of (onlineUsers s) sid")
  case None
  then show ?thesis by (simp add: create_room_def same_identities_refl)
next
  case (Some user)
  have "same_identities s (refresh_points s sid user)"
    by (rule same_identities_refresh)
  moreover have "same_identities (refresh_points s sid user) ((refresh_points s sid user)\<lparr>rooms := r\<rparr>)" for r
    by (rule same_identities_rooms)
  ultimately have "same_identities s ((refresh_points s sid user)\<lparr>rooms := r\<rparr>)" for r
    by (rule same_identities_trans)
  with Some show ?thesis
    by (simp add: create_room_def Let_def same_identities_refresh)
qed

lemma same_identities_join_room: "same_identities s (fst (join_room s sid roomId))"
proof (cases "map_of (onlineUsers s) sid")
  case None
  then show ?thesis by (simp add: join_room_def same_identities_refl)
next
  case (Some user)
  have "same_identities s (refresh_points s sid user)"
    by (rule same_identities_refresh)
  moreover have "same_identities (refresh_points s sid user) ((refresh_points s sid user)\<lparr>rooms := r\<rparr>)" for r
    by (rule same_identities_rooms)
  ultimately have "same_identities s ((refresh_points s sid user)\<lparr>rooms := r\<rparr>)" for r
    by (rule same_identities_trans)
  with Some show ?thesis
    by (simp add: join_room_def Let_def same_identities_refresh split: option.splits)
qed

lemma same_identities_rps_choice: "same_identities s (fst (rps_choice s sid roomId choice))"
proof (cases "map_of (rooms s) roomId")
  case None
  then show ?thesis by (simp add: rps_choice_rejects same_identities_refl)
next
  case (Some room)
  show ?thesis
  proof (cases "r_gameType room = ''rps'' \<and> sid \<in> set (r_players room)")
    case False
    with Some show ?thesis
      by (cases "r_gameType room = ''rps''") (auto simp: rps_choice_rejects same_identities_refl)
  next
    case True
    let ?s1 = "s\<lparr>rooms := AList.update roomId (room\<lparr>r_gameData := Some (record_move room sid choice)\<rparr>) (rooms s)\<rparr>"
    have a: "same_identities s ?s1"
      by (rule same_identities_rooms)
    have b: "same_identities s (fst (settle ?s1 roomId room1 c1 c2 u1 u2))" for room1 c1 c2 u1 u2
      using a same_identities_settle by (rule same_identities_trans)
    from rps_choice_cases [of s roomId room sid choice] Some True
    show ?thesis using a b by auto
  qed
qed

lemma same_identities_ledger2:
  "same_identities s
     (s\<lparr>db := updateUserPoints (updateUserPoints (db s) uid v) uid' v'\<rparr>)"
  by (auto simp: same_identities_def updateUserPoints_def map_of_map_entry map_fst_map_entry
      split: option.splits)

lemma same_identities_steps:
  "same_identities s s' \<Longrightarrow> same_identities s (set_points s' k v)"
  "same_identities s s' \<Longrightarrow> same_identities s (refresh_points s' k u)"
  "same_identities s s' \<Longrightarrow>
     same_identities s (s'\<lparr>db := updateUserPoints (updateUserPoints (db s') uid v) uid' v'\<rparr>)"
  using same_identities_set_points same_identities_refresh same_identities_ledger2
  by (blast intro: same_identities_trans)+

lemma same_identities_transfer_points:
  "same_identities s (fst (transfer_points s sid targetEmail amount))"
  by (auto simp: transfer_points_def Let_def split: option.splits
      intro!: same_identities_steps same_identities_refl)

lemma sessions_indexed_same:
  assumes "same_identities s s'" and "sessions_indexed s"
  shows "sessions_indexed s'"
proof -
  from assms(1) have idx: "emailToSocketId s' = emailToSocketId s"
    and acc: "\<And>k. map_option account_of (map_of (onlineUsers s') k) =
                 map_option account_of (map_of (onlineUsers s) k)"
    and mail: "\<And>uid. map_option db_email (map_of (db s') uid) =
                 map_option db_email (map_of (db s) uid)"
    by (simp_all add: same_identities_def)
  have "map_of (emailToSocketId s') (u_email u) = Some sid
      \<and> map_option db_email (map_of (db s') (u_userId u)) = Some (u_email u)"
    if u: "map_of (onlineUsers s') sid = Some u" for sid u
  proof -
    from acc [of sid] u have "map_option account_of (map_of (onlineUsers s) sid) = Some (account_of u)"
      by simp
    then obtain u0 where u0: "map_of (onlineUsers s) sid = Some u0"
      and same: "account_of u0 = account_of u"
      by (cases "map_of (onlineUsers s) sid") auto
    from same have eq: "u_email u0 = u_email u" "u_userId u0 = u_userId u"
      by (simp_all add: account_of_def)
    from assms(2) u0 have "map_of (emailToSocketId s) (u_email u0) = Some sid
        \<and> map_option db_email (map_of (db s) (u_userId u0)) = Some (u_email u0)"
      by (simp add: sessions_indexed_def)
    with idx mail [of "u_userId u"] eq show ?thesis
      by simp
  qed
  then show ?thesis
    by (simp add: sessions_indexed_def)
qed

lemma sessions_indexed_login:
  assumes "sessions_indexed s" and "verified s (Login sid userId email)"
  shows "sessions_indexed (fst (login s sid userId email))"
proof (cases "getUserById (db s) userId")
  case None
  with assms(1) show ?thesis by (simp add: login_def)
next
  case (Some dbUser)
  with assms(2) have em: "db_email dbUser = email"
    by simp
  show ?thesis
  proof (cases "map_of (emailToSocketId s) email \<noteq> None \<or> length (onlineUsers s) \<ge> MAX_ONLINE_USERS")
    case True
    with Some assms(1) show ?thesis by (auto simp: login_def)
  next
    case False
    then have free: "map_of (emailToSocketId s) email = None"
      by simp
    have other: "u_email u \<noteq> email" if "map_of (onlineUsers s) k = Some u" for k u
      using assms(1) that free by (auto simp: sessions_indexed_def)
    from Some False em assms(1) other show ?thesis
      by (auto simp: login_def Let_def sessions_indexed_def AList.update_conv' getUserById_def)
  qed
qed

lemma sessions_indexed_disconnect:
  assumes "sessions_indexed s"
  shows "sessions_indexed (fst (disconnect s sid))"
proof (cases "map_of (onlineUsers s) sid")
  case None
  with assms show ?thesis by (simp add: disconnect_def)
next
  case (Some user)
  have mine: "map_of (emailToSocketId s) (u_email user) = Some sid"
    using assms Some by (simp add: sessions_indexed_def)
  have other: "u_email u \<noteq> u_email user" if "map_of (onlineUsers s) k = Some u" and "k \<noteq> sid" for k u
  proof
    assume "u_email u = u_email user"
    moreover have "map_of (emailToSocketId s) (u_email u) = Some k"
      using assms that(1) by (simp add: sessions_indexed_def)
    ultimately show False using mine that(2) by simp
  qed
  from Some assms other show ?thesis
    by (auto simp: disconnect_def Let_def case_prod_beta sessions_indexed_def AList.delete_conv'
        split: if_splits)
qed

lemma sessions_indexed_step:
  assumes "sessions_indexed s" and "verified s e"
  shows "sessions_indexed (fst (step s e))"
proof (cases e)
  case (Login sid userId email)
  with assms show ?thesis by (simp add: sessions_indexed_login)
next
  case (CreateRoom sid gameType roomId)
  with assms(1) same_identities_create_room [of s sid gameType roomId] show ?thesis
    by (simp add: sessions_indexed_same)
next
  case (JoinRoom sid roomId)
  with assms(1) same_identities_join_room [of s sid roomId] show ?thesis
    by (simp add: sessions_indexed_same)
next
  case (RpsChoice sid roomId choice)
  with assms(1) same_identities_rps_choice [of s sid roomId choice] show ?thesis
    by (simp add: sessions_indexed_same)
next
  case (TransferPoints sid targetEmail amount)
  with assms(1) same_identities_transfer_points [of s sid targetEmail amount] show ?thesis
    by (simp add: sessions_indexed_same)
next
  case (Disconnect sid)
  with assms(1) show ?thesis by (simp add: sessions_indexed_disconnect)
qed

lemma sessions_indexed_run:
  "sessions_indexed s \<Longrightarrow> verified_run s es \<Longrightarrow> sessions_indexed (run s es)"
  by (induction es arbitrary: s) (simp_all add: sessions_indexed_step)

lemma sessions_indexed_init: "sessions_indexed (init d)"
  by (simp add: sessions_indexed_def init_def)

text \<open>The duplicate check itself, in any state.\<close>

lemma login_already_online:
  assumes "getUserById (db s) userId = Some dbUser"
    and "map_of (emailToSocketId s) email = Some sid0"
  shows "login s sid userId email = (s, [(ToSocket sid, login_error AlreadyOnline)])"
  using assms by (simp add: login_def)

text \<open>
  What the duplicate check does achieve.  When every login of a run presents, with its
  user id, the email the ledger holds for that id, then in the state reached: two
  sessions of the same user id are the same socket; every session carries the ledger's
  email of its account; and a further login for the account of a live session, from any
  socket, is answered with AlreadyOnline and nothing else and returns the state
  unchanged, so the sessions and the index are as before.
\<close>

theorem one_session_per_account:
  assumes "verified_run (init d) es"
  shows "(\<forall>sid1 sid2 u1 u2.
            map_of (onlineUsers (run (init d) es)) sid1 = Some u1
          \<and> map_of (onlineUsers (run (init d) es)) sid2 = Some u2
          \<and> u_userId u1 = u_userId u2 \<longrightarrow> sid1 = sid2)
       \<and> (\<forall>sid0 u0 sid.
            map_of (onlineUsers (run (init d) es)) sid0 = Some u0 \<longrightarrow>
              map_option db_email (getUserById (db (run (init d) es)) (u_userId u0)) = Some (u_email u0)
            \<and> login (run (init d) es) sid (u_userId u0) (u_email u0) =
                (run (init d) es, [(ToSocket sid, login_error AlreadyOnline)]))"
proof -
  let ?s = "run (init d) es"
  have inv: "sessions_indexed ?s"
    using sessions_indexed_init assms by (rule sessions_indexed_run)
  have idx: "map_of (emailToSocketId ?s) (u_email u) = Some sid"
    and row: "map_option db_email (map_of (db ?s) (u_userId u)) = Some (u_email u)"
    if "map_of (onlineUsers ?s) sid = Some u" for sid u
    using inv that by (simp_all add: sessions_indexed_def)
  have one: "sid1 = sid2"
    if "map_of (onlineUsers ?s) sid1 = Some u1" and "map_of (onlineUsers ?s) sid2 = Some u2"
      and "u_userId u1 = u_userId u2" for sid1 sid2 u1 u2
  proof -
    from row [OF that(1)] row [OF that(2)] that(3) have "u_email u1 = u_email u2"
      by simp
    with idx [OF that(1)] idx [OF that(2)] show ?thesis
      by simp
  qed
  have rej: "map_option db_email (getUserById (db ?s) (u_userId u0)) = Some (u_email u0)
      \<and> login ?s sid (u_userId u0) (u_email u0) = (?s, [(ToSocket sid, login_error AlreadyOnline)])"
    if "map_of (onlineUsers ?s) sid0 = Some u0" for sid0 u0 sid
  proof -
    from row [OF that] obtain dbUser where "getUserById (db ?s) (u_userId u0) = Some dbUser"
      by (auto simp: getUserById_def)
    then have "login ?s sid (u_userId u0) (u_email u0) = (?s, [(ToSocket sid, login_error AlreadyOnline)])"
      using idx [OF that] by (rule login_already_online)
    with row [OF that] show ?thesis
      by (simp add: getUserById_def)
  qed
  from one rej show ?thesis by blast
qed

text \<open>Account 1 is online on socket A; socket B logs in for the same account.\<close>

theorem one_session_per_account_witness:
  "verified_run (init ledger_ab) [Login ''A'' 1 ''a@x'']
   \<and> map_of (onlineUsers (run (init ledger_ab) [Login ''A'' 1 ''a@x''])) ''A'' =
       Some \<lparr>u_id = ''A'', u_userId = 1, u_email = ''a@x'', u_username = ''alice'', u_points = 1000\<rparr>
   \<and> login (run (init ledger_ab) [Login ''A'' 1 ''a@x'']) ''B'' 1 ''a@x'' =
       (run (init ledger_ab) [Login ''A'' 1 ''a@x''], [(ToSocket ''B'', login_error AlreadyOnline)])"
proof -
  let ?es = "[Login ''A'' 1 ''a@x'']"
  let ?u = "\<lparr>u_id = ''A'', u_userId = 1, u_email = ''a@x'', u_username = ''alice'', u_points = 1000\<rparr>"
  have v: "verified_run (init ledger_ab) ?es"
    by code_simp
  have u: "map_of (onlineUsers (run (init ledger_ab) ?es)) ''A'' = Some ?u"
    by code_simp
  from one_session_per_account [OF v] u
  have "login (run (init ledger_ab) ?es) ''B'' (u_userId ?u) (u_email ?u) =
      (run (init ledger_ab) ?es, [(ToSocket ''B'', login_error AlreadyOnline)])"
    by blast
  with v u show ?thesis by simp
qed

text \<open>
  Claim C8 (not met by the login handler).  The duplicate check (part_000, 143-149; its
  comment and its error message speak of the account being logged in already) looks up
  the email string of the payload, and the index is filled under that string (169),
  while the session is built from the ledger row of the payload's user id (163) and the
  disconnect handler removes the index entry of the session's email, the ledger's (493).
  Account 1 is online on socket A.  A login for user id 1 with the account's email is
  rejected with AlreadyOnline, the state unchanged.  A login for user id 1 with another
  email string is accepted: the account has two live sessions, both carrying the
  ledger's email, and the index holds the second socket under the string of the payload.
  When the second socket disconnects, the index entry of the first session is the one
  removed, although that session is still live.
\<close>

theorem second_session_accepted:
  "login (run (init ledger_ab) [Login ''A'' 1 ''a@x'']) ''A2'' 1 ''a@x'' =
     (run (init ledger_ab) [Login ''A'' 1 ''a@x''], [(ToSocket ''A2'', login_error AlreadyOnline)])
   \<and> map fst (snd (login (run (init ledger_ab) [Login ''A'' 1 ''a@x'']) ''A2'' 1 ''a2@x'')) =
       [ToSocket ''A2'', BroadcastFrom ''A2'', BroadcastFrom ''A2'']
   \<and> map (\<lambda>kv. (fst kv, u_userId (snd kv), u_email (snd kv)))
       (onlineUsers (run (init ledger_ab) second_session_trace)) =
     [(''A'', 1, ''a@x''), (''A2'', 1, ''a@x'')]
   \<and> emailToSocketId (run (init ledger_ab) second_session_trace) =
       [(''a@x'', ''A''), (''a2@x'', ''A2'')]
   \<and> map fst (onlineUsers (run (init ledger_ab) (second_session_trace @ [Disconnect ''A2'']))) =
       [''A'']
   \<and> emailToSocketId (run (init ledger_ab) (second_session_trace @ [Disconnect ''A2''])) =
       [(''a2@x'', ''A2'')]"
  by code_simp

subsection \<open>The settlement and the ledger\<close>

text \<open>
  Claim C1 (not met by the settlement).  In the state below the ledger holds 500 points
  for account 1 while the session on socket A still caches 1000.  \<open>create_room\<close>
  refreshes first and works with 500, as \<open>join_room\<close> and \<open>transfer_points\<close>
  do.  The settlement that B's move triggers does not: it adds the stake to the cached
  1000 and writes 1100 to the ledger, where the ledger's own value plus the stake is
  600.  The same happens in the run in which the ledger row was changed by a second
  session of the account.
\<close>

theorem settlement_acts_on_stale_cache:
  "getUserPoints (db stale_cache_state) 1 = 500
   \<and> points_of stale_cache_state ''A'' = 1000
   \<and> points_of (fst (create_room stale_cache_state ''A'' ''rps'' ''r9'')) ''A'' = 500
   \<and> points_of (fst (rps_choice stale_cache_state ''B'' ''r1'' scissors)) ''A'' = 1100
   \<and> getUserPoints (db (fst (rps_choice stale_cache_state ''B'' ''r1'' scissors))) 1 = 1100
   \<and> getUserPoints (db (run (init ledger_ab) stale_cache_trace)) 1 = 500
   \<and> points_of (run (init ledger_ab) stale_cache_trace) ''A'' = 1000
   \<and> getUserPoints
        (db (fst (rps_choice (run (init ledger_ab) stale_cache_trace) ''B'' ''r1'' scissors))) 1 = 1100"
  by code_simp

text \<open>
  The balance checks of \<open>create_room\<close> and \<open>join_room\<close> read the ledger: for a
  socket with a session, \<open>create_room\<close> answers with the insufficient-funds error
  exactly when the ledger holds less than 100 points for the account, whatever the
  cache held, and after either handler the cache holds the ledger's value.
\<close>

theorem balance_checks_read_ledger:
  assumes "map_of (onlineUsers s) sid = Some user"
  shows "(snd (create_room s sid gameType roomId) = [(ToSocket sid, error_msg (InsufficientFunds 100))]
            \<longleftrightarrow> getUserPoints (db s) (u_userId user) < 100)
       \<and> points_of (fst (create_room s sid gameType roomId)) sid = getUserPoints (db s) (u_userId user)
       \<and> points_of (fst (join_room s sid roomId')) sid = getUserPoints (db s) (u_userId user)"
  using assms
  by (auto simp: create_room_def join_room_def Let_def points_of_refresh points_of_rooms_update
      refresh_points_fields split: option.splits)

theorem balance_checks_read_ledger_witness:
  "points_of stale_cache_state ''A'' = 1000
   \<and> getUserPoints (db stale_cache_state) 1 = 500
   \<and> points_of (fst (create_room stale_cache_state ''A'' ''rps'' ''r9'')) ''A'' = 500
   \<and> points_of (fst (join_room stale_cache_state ''A'' ''r1'')) ''A'' = 500"
proof -
  let ?a = "\<lparr>u_id = ''A'', u_userId = 1, u_email = ''a@x'', u_username = ''alice'', u_points = 1000\<rparr>"
  have h: "map_of (onlineUsers stale_cache_state) ''A'' = Some ?a"
    by code_simp
  have p: "points_of stale_cache_state ''A'' = 1000" and v: "getUserPoints (db stale_cache_state) 1 = 500"
    by code_simp+
  from balance_checks_read_ledger [OF h, of "''rps''" "''r9''" "''r1''"] p v
  show ?thesis by simp
qed

subsection \<open>Transfers\<close>

text \<open>
  Claim C6 (not met by a transfer to oneself).  Account 1, online on socket A with
  1000 points, transfers 100 points to its own email.  Sender and target are the same
  session: the debit of 100 is overwritten by the credit, in the cache and in the
  ledger, so the account ends with 1100 points, and both notifications report 1100.
\<close>

theorem self_transfer_mints_points:
  "getUserPoints (db (run (init ledger_ab) [Login ''A'' 1 ''a@x''])) 1 = 1000
   \<and> points_of (run (init ledger_ab) [Login ''A'' 1 ''a@x'']) ''A'' = 1000
   \<and> getUserPoints
        (db (fst (transfer_points (run (init ledger_ab) [Login ''A'' 1 ''a@x'']) ''A'' ''a@x'' 100))) 1 = 1100
   \<and> points_of
        (fst (transfer_points (run (init ledger_ab) [Login ''A'' 1 ''a@x'']) ''A'' ''a@x'' 100)) ''A'' = 1100
   \<and> snd (transfer_points (run (init ledger_ab) [Login ''A'' 1 ''a@x'']) ''A'' ''a@x'' 100) =
       [(ToSocket ''A'',
          transfer_success ''alice'' 100
            \<lparr>v_id = 1, v_email = ''a@x'', v_username = ''alice'', v_points = 1100\<rparr>),
        (ToRoom ''A'',
          points_received ''alice'' 100
            \<lparr>v_id = 1, v_email = ''a@x'', v_username = ''alice'', v_points = 1100\<rparr>),
        (ToAll,
          online_users_updated
            [\<lparr>u_id = ''A'', u_userId = 1, u_email = ''a@x'', u_username = ''alice'',
              u_points = 1100\<rparr>])]"
  by code_simp

lemma refresh_points_online_None:
  "map_of (onlineUsers s) k = None \<Longrightarrow> map_of (onlineUsers (refresh_points s sid user)) k = None"
  by (auto simp: refresh_points_def Let_def map_of_set_points)

text \<open>The failing branches of a transfer: only the sender's cache may be refreshed.\<close>

lemma transfer_points_failures:
  assumes "map_of (onlineUsers s) sid = Some sender"
  shows "amount \<le> 0 \<Longrightarrow>
           transfer_points s sid targetEmail amount = (s, [(ToSocket sid, error_msg InvalidAmount)])"
    and "0 < amount \<Longrightarrow> getUserPoints (db s) (u_userId sender) < amount \<Longrightarrow>
           transfer_points s sid targetEmail amount =
             (refresh_points s sid sender, [(ToSocket sid, error_msg TransferInsufficientFunds)])"
    and "0 < amount \<Longrightarrow> amount \<le> getUserPoints (db s) (u_userId sender) \<Longrightarrow>
         map_of (emailToSocketId s) targetEmail = None \<Longrightarrow>
           transfer_points s sid targetEmail amount =
             (refresh_points s sid sender, [(ToSocket sid, error_msg RecipientNotFound)])"
    and "0 < amount \<Longrightarrow> amount \<le> getUserPoints (db s) (u_userId sender) \<Longrightarrow>
         map_of (emailToSocketId s) targetEmail = Some targetSocketId \<Longrightarrow>
         map_of (onlineUsers s) targetSocketId = None \<Longrightarrow>
           transfer_points s sid targetEmail amount =
             (refresh_points s sid sender, [(ToSocket sid, error_msg RecipientOffline)])"
  using assms
  by (simp_all add: transfer_points_def Let_def points_of_refresh refresh_points_fields
      refresh_points_online_None)

text \<open>
  A transfer that fails: the first check that fails decides the error, in the order
  amount, funds (against the ledger), index, session of the target; the requester alone
  is told; the ledger, the rooms, the index and every other session are unchanged, and
  the sender's cache holds either its old value or the ledger's.
\<close>

theorem transfer_points_rejected:
  assumes "map_of (onlineUsers s) sid = Some sender"
    and "amount \<le> 0 \<or> getUserPoints (db s) (u_userId sender) < amount
         \<or> map_of (emailToSocketId s) targetEmail = None
         \<or> (\<exists>t. map_of (emailToSocketId s) targetEmail = Some t \<and> map_of (onlineUsers s) t = None)"
  shows "snd (transfer_points s sid targetEmail amount) =
           [(ToSocket sid,
             error_msg
               (if amount \<le> 0 then InvalidAmount
                else if getUserPoints (db s) (u_userId sender) < amount then TransferInsufficientFunds
                else if map_of (emailToSocketId s) targetEmail = None then RecipientNotFound
                else RecipientOffline))]
       \<and> db (fst (transfer_points s sid targetEmail amount)) = db s
       \<and> rooms (fst (transfer_points s sid targetEmail amount)) = rooms s
       \<and> emailToSocketId (fst (transfer_points s sid targetEmail amount)) = emailToSocketId s
       \<and> (\<forall>k. k \<noteq> sid \<longrightarrow>
             map_of (onlineUsers (fst (transfer_points s sid targetEmail amount))) k =
             map_of (onlineUsers s) k)
       \<and> points_of (fst (transfer_points s sid targetEmail amount)) sid
           \<in> {points_of s sid, getUserPoints (db s) (u_userId sender)}"
proof -
  have other: "map_of (onlineUsers (refresh_points s sid sender)) k = map_of (onlineUsers s) k"
    if "k \<noteq> sid" for k
    using that by (simp add: refresh_points_def Let_def map_of_set_points)
  consider (a) "amount \<le> 0"
    | (b) "0 < amount" "getUserPoints (db s) (u_userId sender) < amount"
    | (c) "0 < amount" "amount \<le> getUserPoints (db s) (u_userId sender)"
          "map_of (emailToSocketId s) targetEmail = None"
    | (d) t where "0 < amount" "amount \<le> getUserPoints (db s) (u_userId sender)"
          "map_of (emailToSocketId s) targetEmail = Some t" "map_of (onlineUsers s) t = None"
    using assms(2) by fastforce
  then show ?thesis
  proof cases
    case a
    then show ?thesis
      using transfer_points_failures(1) [OF assms(1) a, of targetEmail] by simp
  next
    case b
    then show ?thesis
      using transfer_points_failures(2) [OF assms(1) b, of targetEmail] assms(1)
      by (simp add: refresh_points_fields other points_of_refresh)
  next
    case c
    then show ?thesis
      using transfer_points_failures(3) [OF assms(1) c] assms(1)
      by (simp add: refresh_points_fields other points_of_refresh)
  next
    case d
    then show ?thesis
      using transfer_points_failures(4) [OF assms(1) d] assms(1)
      by (simp add: refresh_points_fields other points_of_refresh)
  qed
qed

text \<open>Alice, alone online with 1000 points, tries to send 2000 to Bob, then 100.\<close>

theorem transfer_points_rejected_witness:
  "snd (transfer_points (run (init ledger_ab) [Login ''A'' 1 ''a@x'']) ''A'' ''b@x'' 2000) =
     [(ToSocket ''A'', error_msg TransferInsufficientFunds)]
   \<and> snd (transfer_points (run (init ledger_ab) [Login ''A'' 1 ''a@x'']) ''A'' ''b@x'' 100) =
     [(ToSocket ''A'', error_msg RecipientNotFound)]
   \<and> db (fst (transfer_points (run (init ledger_ab) [Login ''A'' 1 ''a@x'']) ''A'' ''b@x'' 100)) = ledger_ab"
proof -
  let ?s = "run (init ledger_ab) [Login ''A'' 1 ''a@x'']"
  let ?a = "\<lparr>u_id = ''A'', u_userId = 1, u_email = ''a@x'', u_username = ''alice'', u_points = 1000\<rparr>"
  have h1: "map_of (onlineUsers ?s) ''A'' = Some ?a"
    by code_simp
  have v: "getUserPoints (db ?s) (u_userId ?a) = 1000"
    by code_simp
  have i: "map_of (emailToSocketId ?s) ''b@x'' = None"
    by code_simp
  have d: "db ?s = ledger_ab"
    by code_simp
  have h2: "(2000::int) \<le> 0 \<or> getUserPoints (db ?s) (u_userId ?a) < 2000
         \<or> map_of (emailToSocketId ?s) ''b@x'' = None
         \<or> (\<exists>t. map_of (emailToSocketId ?s) ''b@x'' = Some t \<and> map_of (onlineUsers ?s) t = None)"
    using v by simp
  have h3: "(100::int) \<le> 0 \<or> getUserPoints (db ?s) (u_userId ?a) < 100
         \<or> map_of (emailToSocketId ?s) ''b@x'' = None
         \<or> (\<exists>t. map_of (emailToSocketId ?s) ''b@x'' = Some t \<and> map_of (onlineUsers ?s) t = None)"
    using i by simp
  from transfer_points_rejected [OF h1 h2] transfer_points_rejected [OF h1 h3] v i d
  show ?thesis by simp
qed

text \<open>
  A transfer between the sessions of two different accounts, with a positive amount that
  the sender's balance in the ledger covers: the sender's balance falls and the
  target's rises by the amount, in the ledger and in both caches; the sender is told of
  the success, the target of the receipt, and then everyone gets the list of online
  users.
\<close>

theorem transfer_points_between_accounts:
  assumes sender: "map_of (onlineUsers s) sid = Some sender"
    and target: "map_of (emailToSocketId s) targetEmail = Some targetSocketId"
      "map_of (onlineUsers s) targetSocketId = Some target"
    and distinct: "targetSocketId \<noteq> sid" "u_userId target \<noteq> u_userId sender"
    and rows: "map_of (db s) (u_userId sender) \<noteq> None" "map_of (db s) (u_userId target) \<noteq> None"
    and amount: "0 < amount" "amount \<le> getUserPoints (db s) (u_userId sender)"
    and s': "s' = fst (transfer_points s sid targetEmail amount)"
  shows "getUserPoints (db s') (u_userId sender) = getUserPoints (db s) (u_userId sender) - amount
       \<and> getUserPoints (db s') (u_userId target) = getUserPoints (db s) (u_userId target) + amount
       \<and> points_of s' sid = getUserPoints (db s) (u_userId sender) - amount
       \<and> points_of s' targetSocketId = getUserPoints (db s) (u_userId target) + amount
       \<and> snd (transfer_points s sid targetEmail amount) =
           [(ToSocket sid,
              transfer_success (u_username target) amount
                (user_view (sender\<lparr>u_points := getUserPoints (db s) (u_userId sender) - amount\<rparr>))),
            (ToRoom targetSocketId,
              points_received (u_username sender) amount
                (user_view (target\<lparr>u_points := getUserPoints (db s) (u_userId target) + amount\<rparr>))),
            (ToAll, online_users_updated (getOnlineUsersList s'))]"
proof -
  let ?s1 = "set_points s sid (getUserPoints (db s) (u_userId sender))"
  let ?s2 = "set_points ?s1 targetSocketId (getUserPoints (db s) (u_userId target))"
  have r1: "refresh_points s sid sender = ?s1"
    using sender by (rule refresh_points_eq)
  have t1: "map_of (onlineUsers ?s1) targetSocketId = Some target"
    using target(2) distinct(1) by (simp add: map_of_set_points)
  have r2: "refresh_points ?s1 targetSocketId target = ?s2"
    using refresh_points_eq [OF t1] by (simp add: set_points_fields)
  have p_s: "points_of ?s2 sid = getUserPoints (db s) (u_userId sender)"
    and p_t: "points_of ?s2 targetSocketId = getUserPoints (db s) (u_userId target)"
    and p_1: "points_of ?s1 sid = getUserPoints (db s) (u_userId sender)"
    using sender target(2) distinct(1)
    by (simp_all add: points_of_set_points map_of_set_points)
  have unfold: "transfer_points s sid targetEmail amount =
      (let senderNewPoints = getUserPoints (db s) (u_userId sender) - amount;
           targetNewPoints = getUserPoints (db s) (u_userId target) + amount;
           s3 = set_points ?s2 sid senderNewPoints;
           s4 = set_points s3 targetSocketId targetNewPoints;
           s5 = s4\<lparr>db := updateUserPoints (db s4) (u_userId sender) senderNewPoints\<rparr>;
           s6 = s5\<lparr>db := updateUserPoints (db s5) (u_userId target) targetNewPoints\<rparr>
       in (s6,
           [(ToSocket sid,
              transfer_success (u_username target) amount
                (user_view (sender\<lparr>u_points := points_of s6 sid\<rparr>))),
            (ToRoom targetSocketId,
              points_received (u_username sender) amount
                (user_view (target\<lparr>u_points := points_of s6 targetSocketId\<rparr>))),
            (ToAll, online_users_updated (getOnlineUsersList s6))]))"
    using sender target amount t1
    by (simp add: transfer_points_def r1 r2 p_s p_t p_1 set_points_fields Let_def)
  have ls: "getUserPoints (db s') (u_userId sender) = getUserPoints (db s) (u_userId sender) - amount"
    using rows distinct(2)
    by (simp add: s' unfold Let_def set_points_fields getUserPoints_update
        map_of_updateUserPoints_None)
  have lt: "getUserPoints (db s') (u_userId target) = getUserPoints (db s) (u_userId target) + amount"
    using rows distinct(2)
    by (simp add: s' unfold Let_def set_points_fields getUserPoints_update
        map_of_updateUserPoints_None)
  have ps: "points_of s' sid = getUserPoints (db s) (u_userId sender) - amount"
    using sender target(2) distinct(1)
    by (simp add: s' unfold Let_def points_of_db_update points_of_set_points map_of_set_points)
  have pt: "points_of s' targetSocketId = getUserPoints (db s) (u_userId target) + amount"
    using sender target(2) distinct(1)
    by (simp add: s' unfold Let_def points_of_db_update points_of_set_points map_of_set_points)
  have em: "snd (transfer_points s sid targetEmail amount) =
           [(ToSocket sid,
              transfer_success (u_username target) amount
                (user_view (sender\<lparr>u_points := getUserPoints (db s) (u_userId sender) - amount\<rparr>))),
            (ToRoom targetSocketId,
              points_received (u_username sender) amount
                (user_view (target\<lparr>u_points := getUserPoints (db s) (u_userId target) + amount\<rparr>))),
            (ToAll, online_users_updated (getOnlineUsersList s'))]"
    using ps pt unfolding s' by (simp add: unfold Let_def)
  from ls lt ps pt em show ?thesis by simp
qed

text \<open>Alice, with 1000 points, transfers 300 to Bob, who has 1000.\<close>

theorem transfer_points_between_accounts_witness:
  "getUserPoints (db (fst (transfer_points (run (init ledger_ab) [Login ''A'' 1 ''a@x'', Login ''B'' 2 ''b@x''])
        ''A'' ''b@x'' 300))) 1 = 700
   \<and> getUserPoints (db (fst (transfer_points (run (init ledger_ab) [Login ''A'' 1 ''a@x'', Login ''B'' 2 ''b@x''])
        ''A'' ''b@x'' 300))) 2 = 1300
   \<and> points_of (fst (transfer_points (run (init ledger_ab) [Login ''A'' 1 ''a@x'', Login ''B'' 2 ''b@x''])
        ''A'' ''b@x'' 300)) ''A'' = 700
   \<and> points_of (fst (transfer_points (run (init ledger_ab) [Login ''A'' 1 ''a@x'', Login ''B'' 2 ''b@x''])
        ''A'' ''b@x'' 300)) ''B'' = 1300"
proof -
  let ?s = "run (init ledger_ab) [Login ''A'' 1 ''a@x'', Login ''B'' 2 ''b@x'']"
  let ?a = "\<lparr>u_id = ''A'', u_userId = 1, u_email = ''a@x'', u_username = ''alice'', u_points = 1000\<rparr>"
  let ?b = "\<lparr>u_id = ''B'', u_userId = 2, u_email = ''b@x'', u_username = ''bob'', u_points = 1000\<rparr>"
  have h1: "map_of (onlineUsers ?s) ''A'' = Some ?a"
    and h2: "map_of (emailToSocketId ?s) ''b@x'' = Some ''B''"
    and h3: "map_of (onlineUsers ?s) ''B'' = Some ?b"
    by code_simp+
  have h4: "''B'' \<noteq> ''A''" and h5: "u_userId ?b \<noteq> u_userId ?a"
    by simp_all
  have h6: "map_of (db ?s) (u_userId ?a) \<noteq> None" and h7: "map_of (db ?s) (u_userId ?b) \<noteq> None"
    by code_simp+
  have h8: "(0::int) < 300" by simp
  have h9: "300 \<le> getUserPoints (db ?s) (u_userId ?a)"
    by code_simp
  have v1: "getUserPoints (db ?s) (u_userId ?a) = 1000" and v2: "getUserPoints (db ?s) (u_userId ?b) = 1000"
    by code_simp+
  from transfer_points_between_accounts [OF h1 h2 h3 h4 h5 h6 h7 h8 h9 refl] v1 v2
  show ?thesis by simp
qed

subsection \<open>The shape of the state\<close>

lemma leave_rooms_keys:
  assumes "k \<in> fst ` set (fst (leave_rooms sid uname rs))"
  shows "k \<in> fst ` set rs"
proof -
  from assms obtain room' where "(k, room') \<in> set (fst (leave_rooms sid uname rs))"
    by auto
  then obtain room where "(k, room) \<in> set rs"
    using leave_rooms_keeps_moves by blast
  then show ?thesis by force
qed

lemma leave_rooms_distinct:
  "distinct (map fst rs) \<Longrightarrow> distinct (map fst (fst (leave_rooms sid uname rs)))"
proof (induction rs)
  case Nil
  then show ?case by simp
next
  case (Cons kr rs)
  obtain k room where kr: "kr = (k, room)" by (cases kr)
  from Cons.prems kr have "k \<notin> fst ` set rs"
    by simp
  with leave_rooms_keys [of k sid uname rs] have "k \<notin> fst ` set (fst (leave_rooms sid uname rs))"
    by blast
  with Cons kr show ?case
    by (simp add: Let_def case_prod_beta)
qed

lemma rooms_keys_create_room:
  "distinct (map fst (rooms s)) \<Longrightarrow> distinct (map fst (rooms (fst (create_room s sid gameType roomId))))"
  by (simp add: create_room_def Let_def refresh_points_fields AList.distinct_update
      split: option.splits)

lemma rooms_keys_join_room:
  "distinct (map fst (rooms s)) \<Longrightarrow> distinct (map fst (rooms (fst (join_room s sid roomId))))"
  by (simp add: join_room_def Let_def refresh_points_fields AList.distinct_update
      split: option.splits)

lemma rooms_keys_rps_choice:
  assumes "distinct (map fst (rooms s))"
  shows "distinct (map fst (rooms (fst (rps_choice s sid roomId choice))))"
proof (cases "map_of (rooms s) roomId")
  case None
  with assms show ?thesis by (simp add: rps_choice_rejects)
next
  case (Some room)
  show ?thesis
  proof (cases "r_gameType room = ''rps'' \<and> sid \<in> set (r_players room)")
    case False
    with Some assms show ?thesis
      by (cases "r_gameType room = ''rps''") (auto simp: rps_choice_rejects)
  next
    case True
    from rps_choice_cases [of s roomId room sid choice] Some True assms
    show ?thesis
      by (auto simp: settle_rooms AList.distinct_update)
  qed
qed

lemma rooms_keys_disconnect:
  "distinct (map fst (rooms s)) \<Longrightarrow> distinct (map fst (rooms (fst (disconnect s sid))))"
  by (simp add: disconnect_def Let_def case_prod_beta leave_rooms_distinct split: option.splits)

lemma well_formed_same:
  assumes "same_identities s s'" and "well_formed s"
    and "all_entries (\<lambda>k room. r_id room = k) s'" and "distinct (map fst (rooms s'))"
  shows "well_formed s'"
  using assms by (simp add: well_formed_def same_identities_def)

lemma well_formed_step:
  assumes "well_formed s"
  shows "well_formed (fst (step s e))"
proof -
  have keyed: "all_entries (\<lambda>k room. r_id room = k) s" and keys: "distinct (map fst (rooms s))"
    using assms by (simp_all add: well_formed_def)
  show ?thesis
  proof (cases e)
    case (Login sid userId email)
    with assms show ?thesis
      by (auto simp: well_formed_def all_entries_def login_def Let_def AList.distinct_update
          split: option.splits)
  next
    case (CreateRoom sid gameType roomId)
    have a: "all_entries (\<lambda>k room. r_id room = k) (fst (create_room s sid gameType roomId))"
      using keyed by (rule create_room_all_entries) simp
    have b: "distinct (map fst (rooms (fst (create_room s sid gameType roomId))))"
      using keys by (rule rooms_keys_create_room)
    from same_identities_create_room assms a b
    have "well_formed (fst (create_room s sid gameType roomId))"
      by (rule well_formed_same)
    with CreateRoom show ?thesis by simp
  next
    case (JoinRoom sid roomId)
    have a: "all_entries (\<lambda>k room. r_id room = k) (fst (join_room s sid roomId))"
      using keyed by (rule join_room_all_entries) simp_all
    have b: "distinct (map fst (rooms (fst (join_room s sid roomId))))"
      using keys by (rule rooms_keys_join_room)
    from same_identities_join_room assms a b
    have "well_formed (fst (join_room s sid roomId))"
      by (rule well_formed_same)
    with JoinRoom show ?thesis by simp
  next
    case (RpsChoice sid roomId choice)
    have a: "all_entries (\<lambda>k room. r_id room = k) (fst (rps_choice s sid roomId choice))"
      using keyed by (rule rps_choice_all_entries) simp_all
    have b: "distinct (map fst (rooms (fst (rps_choice s sid roomId choice))))"
      using keys by (rule rooms_keys_rps_choice)
    from same_identities_rps_choice assms a b
    have "well_formed (fst (rps_choice s sid roomId choice))"
      by (rule well_formed_same)
    with RpsChoice show ?thesis by simp
  next
    case (TransferPoints sid targetEmail amount)
    have a: "all_entries (\<lambda>k room. r_id room = k) (fst (transfer_points s sid targetEmail amount))"
      using keyed by (simp add: all_entries_def transfer_points_rooms)
    have b: "distinct (map fst (rooms (fst (transfer_points s sid targetEmail amount))))"
      using keys by (simp add: transfer_points_rooms)
    from same_identities_transfer_points assms a b
    have "well_formed (fst (transfer_points s sid targetEmail amount))"
      by (rule well_formed_same)
    with TransferPoints show ?thesis by simp
  next
    case (Disconnect sid)
    have "all_entries (\<lambda>k room. r_id room = k) (fst (disconnect s sid))"
      using keyed by (rule disconnect_all_entries) simp_all
    moreover have "distinct (map fst (rooms (fst (disconnect s sid))))"
      using keys by (rule rooms_keys_disconnect)
    moreover have "distinct (map fst (onlineUsers (fst (disconnect s sid))))"
      "distinct (map fst (emailToSocketId (fst (disconnect s sid))))"
      "db (fst (disconnect s sid)) = db s"
      using assms
      by (simp_all add: well_formed_def disconnect_def Let_def case_prod_beta AList.distinct_delete
          split: option.splits)
    ultimately show ?thesis
      using Disconnect assms by (simp add: well_formed_def)
  qed
qed

lemma well_formed_run: "well_formed s \<Longrightarrow> well_formed (run s es)"
  by (induction es arbitrary: s) (simp_all add: well_formed_step)

text \<open>
  From a ledger without a repeated user id, every state the server reaches has every
  room stored under its own id and no key twice in \<^verbatim>\<open>rooms\<close>, \<^verbatim>\<open>onlineUsers\<close>,
  \<^verbatim>\<open>emailToSocketId\<close> or the ledger.  So the length of \<open>onlineUsers\<close> is the size
  of the \<^verbatim>\<open>Map\<close>, and \<^verbatim>\<open>rooms.delete(room.id)\<close> in the disconnect loop removes the
  room being visited.
\<close>

theorem reachable_well_formed:
  assumes "distinct (map fst d)"
  shows "well_formed (run (init d) es)"
proof -
  have "well_formed (init d)"
    using assms by (simp add: well_formed_def all_entries_def init_def)
  then show ?thesis by (rule well_formed_run)
qed

theorem reachable_well_formed_witness:
  "distinct (map fst ledger_ab)
   \<and> well_formed (run (init ledger_ab) decided_trace)
   \<and> map (\<lambda>kr. (fst kr, r_id (snd kr))) (rooms (run (init ledger_ab) decided_trace)) = [(''r1'', ''r1'')]"
proof -
  have d: "distinct (map fst ledger_ab)"
    by code_simp
  have r: "map (\<lambda>kr. (fst kr, r_id (snd kr))) (rooms (run (init ledger_ab) decided_trace)) = [(''r1'', ''r1'')]"
    by code_simp
  from reachable_well_formed [OF d, of decided_trace] d r show ?thesis
    by simp
qed

subsection \<open>The disconnect loop, key by key\<close>

lemma update_append_notin:
  "k \<notin> fst ` set pre \<Longrightarrow> AList.update k v (pre @ xs) = pre @ AList.update k v xs"
  by (induction pre) auto

lemma delete_append_notin:
  "k \<notin> fst ` set pre \<Longrightarrow> AList.delete k (pre @ xs) = pre @ AList.delete k xs"
  by (induction pre) auto

lemma map_of_append_notin:
  "k \<notin> fst ` set pre \<Longrightarrow> map_of (pre @ xs) k = map_of xs k"
  by (induction pre) auto

text \<open>
  With the entries before the current key already visited (\<open>pre\<close>) and the entries from
  it on untouched (\<open>post\<close>), the rest of the loop leaves \<open>pre\<close> alone and does to
  \<open>post\<close> what \<open>leave_rooms\<close> does.
\<close>

lemma leave_rooms_loop_from:
  assumes "distinct (map fst (pre @ post))"
    and "list_all (\<lambda>kr. r_id (snd kr) = fst kr) post"
  shows "foldl (leave_visit sid uname) (pre @ post, es) (map fst post) =
           (pre @ fst (leave_rooms sid uname post), es @ snd (leave_rooms sid uname post))"
  using assms
proof (induction post arbitrary: pre es)
  case Nil
  then show ?case by simp
next
  case (Cons kr rest)
  obtain k room where kr: "kr = (k, room)" by (cases kr)
  from Cons.prems kr have notpre: "k \<notin> fst ` set pre" and notrest: "k \<notin> fst ` set rest"
    and rid: "r_id room = k" and keyed: "list_all (\<lambda>kr. r_id (snd kr) = fst kr) rest"
    by auto
  have look: "map_of (pre @ (k, room) # rest) k = Some room"
    using map_of_append_notin [OF notpre, of "(k, room) # rest"] by simp
  show ?case
  proof (cases "sid \<in> set (r_players room)")
    case False
    have d: "distinct (map fst ((pre @ [(k, room)]) @ rest))"
      using Cons.prems(1) kr by simp
    have "foldl (leave_visit sid uname) ((pre @ [(k, room)]) @ rest, es) (map fst rest) =
        ((pre @ [(k, room)]) @ fst (leave_rooms sid uname rest), es @ snd (leave_rooms sid uname rest))"
      using d keyed by (rule Cons.IH)
    moreover have "leave_visit sid uname (pre @ (k, room) # rest, es) k = (pre @ (k, room) # rest, es)"
      using False look by (simp add: leave_visit_def)
    ultimately show ?thesis
      using False kr by (simp add: case_prod_beta)
  next
    case True
    let ?room1 = "room\<lparr>r_players := filter (\<lambda>i. i \<noteq> sid) (r_players room)\<rparr>"
    show ?thesis
    proof (cases "filter (\<lambda>i. i \<noteq> sid) (r_players room) = []")
      case empty: True
      have del: "AList.delete k (AList.update k ?room1 (pre @ (k, room) # rest)) = pre @ rest"
        using notpre notrest by (simp add: update_append_notin delete_append_notin)
      have d: "distinct (map fst (pre @ rest))"
        using Cons.prems(1) kr by simp
      have "foldl (leave_visit sid uname) (pre @ rest, es) (map fst rest) =
          (pre @ fst (leave_rooms sid uname rest), es @ snd (leave_rooms sid uname rest))"
        using d keyed by (rule Cons.IH)
      moreover have "leave_visit sid uname (pre @ (k, room) # rest, es) k = (pre @ rest, es)"
        using True empty look rid del by (simp add: leave_visit_def)
      ultimately show ?thesis
        using True empty kr by (simp add: case_prod_beta)
    next
      case nonempty: False
      let ?room2 = "?room1\<lparr>r_status := waiting\<rparr>"
      have upd: "AList.update k ?room2 (AList.update k ?room1 (pre @ (k, room) # rest)) =
          (pre @ [(k, ?room2)]) @ rest"
        using notpre by (simp add: update_append_notin)
      have d: "distinct (map fst ((pre @ [(k, ?room2)]) @ rest))"
        using Cons.prems(1) kr by simp
      have "foldl (leave_visit sid uname) ((pre @ [(k, ?room2)]) @ rest,
            es @ [(ToRoom (r_id ?room1), player_left_room ?room1 uname)]) (map fst rest) =
          ((pre @ [(k, ?room2)]) @ fst (leave_rooms sid uname rest),
           (es @ [(ToRoom (r_id ?room1), player_left_room ?room1 uname)]) @ snd (leave_rooms sid uname rest))"
        using d keyed by (rule Cons.IH)
      moreover have "leave_visit sid uname (pre @ (k, room) # rest, es) k =
          ((pre @ [(k, ?room2)]) @ rest, es @ [(ToRoom (r_id ?room1), player_left_room ?room1 uname)])"
        using True nonempty look upd by (simp add: leave_visit_def Let_def)
      ultimately show ?thesis
        using True nonempty kr by (simp add: case_prod_beta Let_def)
    qed
  qed
qed

lemma leave_rooms_loop_eq:
  assumes "well_formed s"
  shows "leave_rooms_loop sid uname (rooms s) = leave_rooms sid uname (rooms s)"
  using leave_rooms_loop_from [of "[]" "rooms s" sid uname "[]"] assms
  by (simp add: leave_rooms_loop_def well_formed_def all_entries_def)

text \<open>
  On every state the server reaches from a ledger without a repeated user id, the loop
  of \<^verbatim>\<open>disconnect\<close> run key by key is \<open>leave_rooms\<close>.
\<close>

theorem leave_rooms_loop_reachable:
  assumes "distinct (map fst d)"
  shows "leave_rooms_loop sid uname (rooms (run (init d) es)) =
           leave_rooms sid uname (rooms (run (init d) es))"
proof -
  have "well_formed (init d)"
    using assms by (simp add: well_formed_def all_entries_def init_def)
  then have "well_formed (run (init d) es)" by (rule well_formed_run)
  then show ?thesis by (rule leave_rooms_loop_eq)
qed

theorem leave_rooms_loop_reachable_witness:
  "distinct (map fst ledger_ab)
   \<and> leave_rooms_loop ''B'' ''bob'' (rooms (run (init ledger_ab) decided_trace)) =
       leave_rooms ''B'' ''bob'' (rooms (run (init ledger_ab) decided_trace))
   \<and> map (\<lambda>kr. (fst kr, r_players (snd kr)))
         (fst (leave_rooms_loop ''B'' ''bob'' (rooms (run (init ledger_ab) decided_trace)))) =
       [(''r1'', [''A''])]"
proof -
  have d: "distinct (map fst ledger_ab)"
    by code_simp
  have r: "map (\<lambda>kr. (fst kr, r_players (snd kr)))
         (fst (leave_rooms_loop ''B'' ''bob'' (rooms (run (init ledger_ab) decided_trace)))) =
       [(''r1'', [''A''])]"
    by code_simp
  from leave_rooms_loop_reachable [OF d, of "''B''" "''bob''" decided_trace] d r show ?thesis
    by simp
qed

end
